theory Spec2Isabelle
  imports Complex_Main "HOL-Library.Log_Nat"
begin

section \<open>JavaScript values used by the reservation and listing code\<close>

text \<open>
  A JavaScript string is a sequence of UTF-16 code units; a code unit is a natural number.
  \<open>js\<close> turns an ASCII literal into such a string.
\<close>

type_synonym jsstring = "nat list"

definition js :: "string \<Rightarrow> jsstring" where
  "js s = map of_char s"

text \<open>
  The class \<open>\s\<close> of a regular expression, which is also what \<open>String.prototype.trim\<close>
  strips: tab to carriage return, space, no-break space, U+1680, U+2000 to U+200A,
  U+2028, U+2029, U+202F, U+205F, U+3000 and U+FEFF.
\<close>

definition isWhiteSpace :: "nat \<Rightarrow> bool" where
  "isWhiteSpace c \<longleftrightarrow>
     (9 \<le> c \<and> c \<le> 13) \<or> c = 32 \<or> c = 160 \<or> c = 5760 \<or> (8192 \<le> c \<and> c \<le> 8202) \<or>
     c = 8232 \<or> c = 8233 \<or> c = 8239 \<or> c = 8287 \<or> c = 12288 \<or> c = 65279"

definition trim :: "jsstring \<Rightarrow> jsstring" where
  "trim s = rev (dropWhile isWhiteSpace (rev (dropWhile isWhiteSpace s)))"

text \<open>\<open>s.substring(0, n)\<close> for a non-negative \<open>n\<close>.\<close>

definition substring0 :: "nat \<Rightarrow> jsstring \<Rightarrow> jsstring" where
  "substring0 n s = take n s"

text \<open>\<open>s.split(sep)\<close> for a separator of one code unit.\<close>

fun split_on :: "nat \<Rightarrow> jsstring \<Rightarrow> jsstring list" where
  "split_on sep [] = [[]]"
| "split_on sep (c # cs) =
     (if c = sep then [] # split_on sep cs
      else (case split_on sep cs of [] \<Rightarrow> [[c]] | p # ps \<Rightarrow> (c # p) # ps))"

text \<open>
  A JavaScript number is an IEEE 754 double: \<open>NaN\<close>, the two infinities, or a finite value,
  which is a rational. The result of an arithmetic operation is the double nearest to the
  exact result, a tie going to the even significand: \<open>round_half_even\<close> rounds to an
  integer in that way, \<open>ilog2 q\<close> is the binary exponent of a positive \<open>q\<close> (the
  \<open>L\<close> with \<open>2 powi L \<le> q < 2 powi (L + 1)\<close>), and \<open>double_of q\<close> keeps 53 bits
  of \<open>q\<close>, with exponents down to \<open>-1074\<close>; a magnitude that rounds to \<open>2 powi 1024\<close>
  is infinite. Signed zeros are not modelled.
\<close>

datatype jsnum = NaN | NegInf | Num rat | PosInf

definition round_half_even :: "rat \<Rightarrow> int" where
  "round_half_even x =
     (let f = \<lfloor>x\<rfloor>; r = x - of_int f
      in if r < 1 / 2 then f else if 1 / 2 < r then f + 1 else if even f then f else f + 1)"

definition ilog2 :: "rat \<Rightarrow> int" where
  "ilog2 q =
     (case quotient_of q of
        (p, d) \<Rightarrow> (let c = bitlen p - bitlen d in if 2 powi c \<le> q then c else c - 1))"

definition double_of :: "rat \<Rightarrow> jsnum" where
  "double_of q =
     (if q = 0 then Num 0
      else
        (let e = max (ilog2 \<bar>q\<bar> - 52) (- 1074);
             v = of_int (round_half_even (\<bar>q\<bar> / 2 powi e)) * 2 powi e
         in if 2 powi 1024 \<le> v then (if 0 < q then PosInf else NegInf)
            else Num (if 0 < q then v else - v)))"

fun rank :: "jsnum \<Rightarrow> (int \<times> rat) option" where
  "rank NaN = None"
| "rank NegInf = Some (-1, 0)"
| "rank (Num q) = Some (0, q)"
| "rank PosInf = Some (1, 0)"

text \<open>The operators \<open><\<close>, \<open>>\<close>, \<open><=\<close> and \<open>===\<close> on numbers: every comparison with \<open>NaN\<close> is false.\<close>

definition js_lt :: "jsnum \<Rightarrow> jsnum \<Rightarrow> bool" where
  "js_lt a b =
     (case (rank a, rank b) of
        (Some (i, p), Some (j, q)) \<Rightarrow> i < j \<or> (i = j \<and> p < q)
      | _ \<Rightarrow> False)"

definition js_gt :: "jsnum \<Rightarrow> jsnum \<Rightarrow> bool" where
  "js_gt a b = js_lt b a"

definition js_le :: "jsnum \<Rightarrow> jsnum \<Rightarrow> bool" where
  "js_le a b = (a \<noteq> NaN \<and> b \<noteq> NaN \<and> \<not> js_lt b a)"

definition js_eq :: "jsnum \<Rightarrow> jsnum \<Rightarrow> bool" where
  "js_eq a b = (a \<noteq> NaN \<and> a = b)"

text \<open>Division, \<open>Math.floor\<close>, \<open>Math.ceil\<close>, \<open>Math.min\<close>, and the operators \<open>+\<close>, \<open>-\<close> and \<open>*\<close>.\<close>

fun js_div :: "jsnum \<Rightarrow> jsnum \<Rightarrow> jsnum" where
  "js_div (Num a) (Num b) =
     (if b = 0 then (if a = 0 then NaN else if 0 < a then PosInf else NegInf)
      else double_of (a / b))"
| "js_div NaN _ = NaN"
| "js_div _ NaN = NaN"
| "js_div (Num a) _ = Num 0"
| "js_div PosInf (Num b) = (if 0 \<le> b then PosInf else NegInf)"
| "js_div NegInf (Num b) = (if 0 \<le> b then NegInf else PosInf)"
| "js_div _ _ = NaN"

fun Math_floor :: "jsnum \<Rightarrow> jsnum" where
  "Math_floor (Num q) = Num (of_int \<lfloor>q\<rfloor>)"
| "Math_floor x = x"

fun Math_ceil :: "jsnum \<Rightarrow> jsnum" where
  "Math_ceil (Num q) = Num (of_int \<lceil>q\<rceil>)"
| "Math_ceil x = x"

fun js_add :: "jsnum \<Rightarrow> jsnum \<Rightarrow> jsnum" where
  "js_add (Num a) (Num b) = double_of (a + b)"
| "js_add NaN _ = NaN"
| "js_add _ NaN = NaN"
| "js_add PosInf NegInf = NaN"
| "js_add NegInf PosInf = NaN"
| "js_add PosInf _ = PosInf"
| "js_add NegInf _ = NegInf"
| "js_add _ x = x"

definition Math_min :: "jsnum \<Rightarrow> jsnum \<Rightarrow> jsnum" where
  "Math_min a b = (if a = NaN \<or> b = NaN then NaN else if js_lt b a then b else a)"

fun js_neg :: "jsnum \<Rightarrow> jsnum" where
  "js_neg (Num q) = Num (- q)"
| "js_neg NegInf = PosInf"
| "js_neg PosInf = NegInf"
| "js_neg NaN = NaN"

definition js_sub :: "jsnum \<Rightarrow> jsnum \<Rightarrow> jsnum" where
  "js_sub a b = js_add a (js_neg b)"

fun js_sgn :: "jsnum \<Rightarrow> int" where
  "js_sgn (Num q) = (if q = 0 then 0 else if 0 < q then 1 else -1)"
| "js_sgn NegInf = -1"
| "js_sgn PosInf = 1"
| "js_sgn NaN = 0"

definition js_mul :: "jsnum \<Rightarrow> jsnum \<Rightarrow> jsnum" where
  "js_mul a b =
     (case (a, b) of
        (Num x, Num y) \<Rightarrow> double_of (x * y)
      | _ \<Rightarrow>
          if js_sgn a * js_sgn b = 0 then NaN
          else if 0 < js_sgn a * js_sgn b then PosInf
          else NegInf)"

text \<open>\<open>x || d\<close> on numbers: \<open>NaN\<close> and zero are falsy.\<close>

definition js_or :: "jsnum \<Rightarrow> jsnum \<Rightarrow> jsnum" where
  "js_or x d = (if x = NaN \<or> x = Num 0 then d else x)"

text \<open>
  \<open>parseInt(string)\<close> without a radix: leading white space, an optional sign, an optional
  \<open>0x\<close> prefix that selects radix 16, then the longest run of digits; \<open>NaN\<close> when that
  run is empty, and otherwise the double nearest to the integer read. \<open>None\<close> is
  \<open>undefined\<close>, whose \<open>parseInt\<close> is \<open>NaN\<close>.
\<close>

definition digit_value :: "nat \<Rightarrow> nat" where
  "digit_value c =
     (if 48 \<le> c \<and> c \<le> 57 then c - 48
      else if 97 \<le> c \<and> c \<le> 122 then c - 87
      else if 65 \<le> c \<and> c \<le> 90 then c - 55
      else 36)"

definition parseInt :: "jsstring option \<Rightarrow> jsnum" where
  "parseInt v =
     (case v of
        None \<Rightarrow> NaN
      | Some s \<Rightarrow>
          (let t = dropWhile isWhiteSpace s;
               negative = (t \<noteq> [] \<and> hd t = 45);
               t1 = (if t \<noteq> [] \<and> (hd t = 45 \<or> hd t = 43) then tl t else t);
               hex = (2 \<le> length t1 \<and> t1 ! 0 = 48 \<and> (t1 ! 1 = 120 \<or> t1 ! 1 = 88));
               radix = (if hex then 16 else 10);
               t2 = (if hex then drop 2 t1 else t1);
               z = takeWhile (\<lambda>c. digit_value c < radix) t2;
               n = foldl (\<lambda>acc c. acc * radix + digit_value c) 0 z
           in if z = [] then NaN
              else double_of (of_int (if negative then - int n else int n))))"

section \<open>Request bodies and the conversions applied to their values\<close>

text \<open>
  A value of a parsed request body: \<open>null\<close>, a boolean, a number, a string, an array or an
  object (its entries in the order of the text; of two entries with one key the later
  counts). A field of the body is a \<open>json option\<close>, \<open>None\<close> for a field that is absent
  (\<open>undefined\<close>).
\<close>

datatype json =
    JNull | JBool bool | JNum jsnum | JStr jsstring | JArr "json list"
  | JObj "(jsstring \<times> json) list"

text \<open>Reading a property of a value that does not have it as a function and calling it raises.\<close>

datatype raised = TypeError

definition truthy :: "json option \<Rightarrow> bool" where
  "truthy v \<longleftrightarrow>
     (case v of
        None \<Rightarrow> False
      | Some JNull \<Rightarrow> False
      | Some (JBool b) \<Rightarrow> b
      | Some (JNum x) \<Rightarrow> x \<noteq> NaN \<and> x \<noteq> Num 0
      | Some (JStr s) \<Rightarrow> s \<noteq> []
      | Some _ \<Rightarrow> True)"

definition own_property :: "(jsstring \<times> json) list \<Rightarrow> jsstring \<Rightarrow> json option" where
  "own_property entries k = map_of (rev entries) k"

text \<open>
  What the validator reads from its surroundings. \<open>clock_now\<close> is the value of
  \<open>new Date()\<close> in milliseconds since the epoch (one synchronous call of the validator reads
  one instant), \<open>tz_offset\<close> the local time zone's offset in milliseconds (local time is UTC
  plus the offset; the offset is constant, so the zone has no daylight-saving change in the
  days concerned). \<open>Date_parse\<close>, \<open>to_Number\<close> and \<open>Number_toString\<close> are the built-in
  conversions \<open>new Date(string)\<close> (\<open>None\<close> is an invalid date), \<open>Number(string)\<close> and
  the decimal form of a finite number; they are parameters, so every result below holds
  whatever the engine's conversions do.
\<close>

record env =
  clock_now :: int
  tz_offset :: int
  Date_parse :: "jsstring \<Rightarrow> int option"
  to_Number :: "jsstring \<Rightarrow> jsnum"
  Number_toString :: "rat \<Rightarrow> jsstring"

definition num_string :: "env \<Rightarrow> jsnum \<Rightarrow> jsstring" where
  "num_string e x =
     (case x of
        NaN \<Rightarrow> js ''NaN''
      | PosInf \<Rightarrow> js ''Infinity''
      | NegInf \<Rightarrow> js ''-Infinity''
      | Num q \<Rightarrow> Number_toString e q)"

text \<open>\<open>Array.prototype.join\<close> with the separator \<open>,\<close> (code unit 44), over converted elements.\<close>

fun join_comma :: "(raised + jsstring) list \<Rightarrow> raised + jsstring" where
  "join_comma [] = Inr []"
| "join_comma [r] = r"
| "join_comma (r # rs) =
     (case r of
        Inl x \<Rightarrow> Inl x
      | Inr s \<Rightarrow> (case join_comma rs of Inl x \<Rightarrow> Inl x | Inr t \<Rightarrow> Inr (s @ [44] @ t)))"

text \<open>
  The conversion of a value to a string, as a template literal, a regular expression's
  \<open>test\<close>, \<open>parseInt\<close> and \<open>new Date\<close> apply it. An array joins its elements, a
  \<open>null\<close> element giving the empty string. An object of a body inherits
  \<open>Object.prototype.toString\<close> and prints as \<open>[object Object]\<close>, unless it has a property
  \<open>toString\<close> of its own: that property is not a function, \<open>valueOf\<close> gives no
  primitive either, and the conversion raises.
\<close>

fun ToString :: "env \<Rightarrow> json \<Rightarrow> raised + jsstring" where
  "ToString e JNull = Inr (js ''null'')"
| "ToString e (JBool b) = Inr (if b then js ''true'' else js ''false'')"
| "ToString e (JNum x) = Inr (num_string e x)"
| "ToString e (JStr s) = Inr s"
| "ToString e (JArr xs) = join_comma (map (\<lambda>x. if x = JNull then Inr [] else ToString e x) xs)"
| "ToString e (JObj entries) =
     (if own_property entries (js ''toString'') \<noteq> None then Inl TypeError
      else Inr (js ''[object Object]''))"

text \<open>The conversion to a number, as the operator \<open>>\<close> applies it beside a number.\<close>

definition ToNumber :: "env \<Rightarrow> json \<Rightarrow> raised + jsnum" where
  "ToNumber e v =
     (case v of
        JNull \<Rightarrow> Inr (Num 0)
      | JBool b \<Rightarrow> Inr (Num (if b then 1 else 0))
      | JNum x \<Rightarrow> Inr x
      | JStr s \<Rightarrow> Inr (to_Number e s)
      | _ \<Rightarrow> (case ToString e v of Inl x \<Rightarrow> Inl x | Inr s \<Rightarrow> Inr (to_Number e s)))"

text \<open>
  The property \<open>length\<close> of a truthy value: the number of code units of a string, the
  number of elements of an array, an object's own entry of that name, and \<open>undefined\<close>
  for a number or a boolean. \<open>longer_than e v k\<close> is \<open>v.length > k\<close>.
\<close>

definition length_of :: "json \<Rightarrow> json option" where
  "length_of v =
     (case v of
        JStr s \<Rightarrow> Some (JNum (Num (of_nat (length s))))
      | JArr xs \<Rightarrow> Some (JNum (Num (of_nat (length xs))))
      | JObj entries \<Rightarrow> own_property entries (js ''length'')
      | _ \<Rightarrow> None)"

definition longer_than :: "env \<Rightarrow> json \<Rightarrow> rat \<Rightarrow> raised + bool" where
  "longer_than e v k =
     (case length_of v of
        None \<Rightarrow> Inr False
      | Some l \<Rightarrow> (case ToNumber e l of Inl x \<Rightarrow> Inl x | Inr n \<Rightarrow> Inr (js_gt n (Num k))))"

text \<open>
  \<open>parseInt(v)\<close> of a field: the field is converted to a string first.
\<close>

definition parseInt_of :: "env \<Rightarrow> json option \<Rightarrow> raised + jsnum" where
  "parseInt_of e v =
     (case v of
        None \<Rightarrow> Inr (parseInt None)
      | Some x \<Rightarrow> (case ToString e x of Inl r \<Rightarrow> Inl r | Inr s \<Rightarrow> Inr (parseInt (Some s))))"

text \<open>
  \<open>new Date(v)\<close>: a string is parsed; a number is a time value, cut to an integer and
  invalid beyond 8.64e15 milliseconds either side of the epoch; \<open>null\<close> and the booleans
  are the numbers 0 and 1; an array or an object is converted to a string, which is parsed.
  \<open>None\<close> is an invalid date.
\<close>

definition TimeClip :: "jsnum \<Rightarrow> int option" where
  "TimeClip x =
     (case x of
        Num q \<Rightarrow> if \<bar>q\<bar> \<le> 8640000000000000 then Some (if 0 \<le> q then \<lfloor>q\<rfloor> else \<lceil>q\<rceil>) else None
      | _ \<Rightarrow> None)"

definition Date_of :: "env \<Rightarrow> json \<Rightarrow> raised + int option" where
  "Date_of e v =
     (case v of
        JStr s \<Rightarrow> Inr (Date_parse e s)
      | JNum x \<Rightarrow> Inr (TimeClip x)
      | JBool b \<Rightarrow> Inr (Some (if b then 1 else 0))
      | JNull \<Rightarrow> Inr (Some 0)
      | _ \<Rightarrow> (case ToString e v of Inl r \<Rightarrow> Inl r | Inr s \<Rightarrow> Inr (Date_parse e s)))"

section \<open>Pagination envelope (\<open>buildPagination\<close> of the helper utilities)\<close>

record pagination =
  total :: jsnum
  limit :: jsnum
  offset :: jsnum
  currentPage :: jsnum
  totalPages :: jsnum
  hasMore :: bool
  hasPrevious :: bool

definition buildPagination :: "jsnum \<Rightarrow> jsnum \<Rightarrow> jsnum \<Rightarrow> pagination" where
  "buildPagination tot lmt ofs =
     (let currentPage = js_add (Math_floor (js_div ofs lmt)) (Num 1);
          totalPages = Math_ceil (js_div tot lmt)
      in \<lparr> total = tot, limit = lmt, offset = ofs,
           currentPage = currentPage, totalPages = totalPages,
           hasMore = js_lt (js_add ofs lmt) tot,
           hasPrevious = js_gt ofs (Num 0) \<rparr>)"

section \<open>Reservation validator (\<open>validateReservationData\<close> of the reservation routes)\<close>

text \<open>The request body: the eight fields that the reservation routes read.\<close>

record payload =
  ten_khach :: "json option"
  sdt :: "json option"
  email :: "json option"
  ngay :: "json option"
  gio :: "json option"
  so_luong_khach :: "json option"
  ghi_chu :: "json option"
  trang_thai :: "json option"

definition DAY :: int where
  "DAY = 86400000"

text \<open>\<open>d.setHours(0, 0, 0, 0)\<close>: the start of the local day of an instant.\<close>

definition setHours0 :: "env \<Rightarrow> int \<Rightarrow> int" where
  "setHours0 e t = t - (t + tz_offset e) mod DAY"

text \<open>\<open>d.setDate(d.getDate() + n)\<close>: the same local time of day, \<open>n\<close> days later.\<close>

definition addDays :: "int \<Rightarrow> int \<Rightarrow> int" where
  "addDays n t = t + n * DAY"

text \<open>
  \<open>a.toDateString() === b.toDateString()\<close>: both print the local calendar day; an invalid
  date prints \<open>Invalid Date\<close>.
\<close>

definition sameDateString :: "env \<Rightarrow> int option \<Rightarrow> int option \<Rightarrow> bool" where
  "sameDateString e a b =
     (case (a, b) of
        (Some x, Some y) \<Rightarrow> (x + tz_offset e) div DAY = (y + tz_offset e) div DAY
      | (None, None) \<Rightarrow> True
      | _ \<Rightarrow> False)"

text \<open>A date compares as its time value, an invalid date as \<open>NaN\<close>.\<close>

definition valueOf :: "int option \<Rightarrow> jsnum" where
  "valueOf d = (case d of None \<Rightarrow> NaN | Some t \<Rightarrow> Num (of_int t))"

text \<open>
  The error messages, in the order of the source: each constructor stands for one
  Vietnamese message of \<open>validateReservationData\<close> (name of at least 2 characters, name of
  at most 100, name of letters and spaces only, phone required, phone of 10 to 11 digits,
  email format, email of at most 100, date required, date in the past, date beyond 30 days,
  time required, time outside 10:00 - 21:30, time already passed, party size required,
  party size from 1 to 20, note of at most 500).
\<close>

datatype verror =
    NameTooShort | NameTooLong | NameNotLetters
  | PhoneRequired | PhoneNotDigits
  | EmailFormat | EmailTooLong
  | DateRequired | DateInPast | DateBeyond30Days
  | TimeRequired | TimeOutsideHours | TimeAlreadyPassed
  | GuestsRequired | GuestsOutOfRange
  | NoteTooLong

definition push_if :: "bool \<Rightarrow> 'a \<Rightarrow> 'a list" where
  "push_if b x = (if b then [x] else [])"

text \<open>\<open>/^[a-zA-Z\<dots>\s]+$/u\<close>, the third range of the class running from U+00C0 to U+1EF9.\<close>

definition isNameChar :: "nat \<Rightarrow> bool" where
  "isNameChar c \<longleftrightarrow>
     (97 \<le> c \<and> c \<le> 122) \<or> (65 \<le> c \<and> c \<le> 90) \<or> (192 \<le> c \<and> c \<le> 7929) \<or> isWhiteSpace c"

definition name_pattern :: "jsstring \<Rightarrow> bool" where
  "name_pattern s \<longleftrightarrow> s \<noteq> [] \<and> list_all isNameChar s"

text \<open>\<open>/^[0-9]{10,11}$/\<close>\<close>

definition phone_pattern :: "jsstring \<Rightarrow> bool" where
  "phone_pattern s \<longleftrightarrow>
     (length s = 10 \<or> length s = 11) \<and> list_all (\<lambda>c. 48 \<le> c \<and> c \<le> 57) s"

text \<open>
  \<open>/^[^\s@]+@[^\s@]+\.[^\s@]+$/\<close>: no white space, one \<open>@\<close> (code unit 64) after a
  non-empty local part, and a dot (46) in the rest that is neither its first nor its last
  code unit.
\<close>

definition email_pattern :: "jsstring \<Rightarrow> bool" where
  "email_pattern s \<longleftrightarrow>
     (let local = takeWhile (\<lambda>c. c \<noteq> 64) s;
          rest = drop (Suc (length local)) s
      in local \<noteq> [] \<and> length local < length s \<and>
         list_all (\<lambda>c. \<not> isWhiteSpace c) s \<and>
         list_all (\<lambda>c. c \<noteq> 64) rest \<and>
         46 \<in> set (butlast (tl rest)))"

text \<open>
  Each group of checks gives the errors it pushes, or raises. The name, the phone and the
  time are used as strings (\<open>trim\<close>, \<open>replace\<close>, \<open>split\<close>): a truthy value that is
  not a string has no such method, and the call raises.
\<close>

definition validate_ten_khach :: "json option \<Rightarrow> raised + verror list" where
  "validate_ten_khach v =
     (if \<not> truthy v then Inr [NameTooShort]
      else
        (case v of
           Some (JStr s) \<Rightarrow>
             Inr (push_if (length (trim s) < 2) NameTooShort @
                  push_if (100 < length s) NameTooLong @
                  push_if (\<not> name_pattern s) NameNotLetters)
         | _ \<Rightarrow> Inl TypeError))"

definition validate_sdt :: "json option \<Rightarrow> raised + verror list" where
  "validate_sdt v =
     (if \<not> truthy v then Inr [PhoneRequired]
      else
        (case v of
           Some (JStr s) \<Rightarrow>
             (let phone = filter (\<lambda>c. \<not> isWhiteSpace c) s
              in Inr (push_if (phone \<noteq> [] \<and> \<not> phone_pattern phone) PhoneNotDigits))
         | _ \<Rightarrow> Inl TypeError))"

definition validate_email :: "env \<Rightarrow> json option \<Rightarrow> raised + verror list" where
  "validate_email e v =
     (case v of
        None \<Rightarrow> Inr []
      | Some x \<Rightarrow>
          if \<not> truthy v then Inr []
          else
            (case ToString e x of
               Inl r \<Rightarrow> Inl r
             | Inr s \<Rightarrow>
                 (case longer_than e x 100 of
                    Inl r \<Rightarrow> Inl r
                  | Inr long \<Rightarrow>
                      Inr (push_if (\<not> email_pattern s) EmailFormat @ push_if long EmailTooLong))))"

definition validate_ngay :: "env \<Rightarrow> json option \<Rightarrow> raised + verror list" where
  "validate_ngay e v =
     (case v of
        None \<Rightarrow> Inr [DateRequired]
      | Some x \<Rightarrow>
          if \<not> truthy v then Inr [DateRequired]
          else
            (case Date_of e x of
               Inl r \<Rightarrow> Inl r
             | Inr reservationDate \<Rightarrow>
                 (let today = setHours0 e (clock_now e);
                      maxDate = addDays 30 (clock_now e)
                  in Inr (push_if (js_lt (valueOf reservationDate) (Num (of_int today))) DateInPast @
                          push_if (js_gt (valueOf reservationDate) (Num (of_int maxDate)))
                            DateBeyond30Days))))"

text \<open>
  \<open>const [hours, minutes] = data.gio.split(':').map(Number)\<close>: a missing second part
  leaves \<open>minutes\<close> undefined, which compares as \<open>NaN\<close> does.
\<close>

definition hours_minutes :: "env \<Rightarrow> jsstring \<Rightarrow> jsnum \<times> jsnum" where
  "hours_minutes e g =
     (case map (to_Number e) (split_on 58 g) of
        [] \<Rightarrow> (NaN, NaN)
      | [h] \<Rightarrow> (h, NaN)
      | h # m # _ \<Rightarrow> (h, m))"

text \<open>
  The check of a time that is today: the date is read again, and when it prints the same
  day as the clock, the date and the time, joined by a space (code unit 32), are parsed.
\<close>

definition time_passed :: "env \<Rightarrow> json option \<Rightarrow> jsstring \<Rightarrow> raised + verror list" where
  "time_passed e d g =
     (case d of
        None \<Rightarrow> Inr []
      | Some n \<Rightarrow>
          if \<not> truthy d then Inr []
          else
            (case Date_of e n of
               Inl r \<Rightarrow> Inl r
             | Inr reservationDate \<Rightarrow>
                 if sameDateString e reservationDate (Some (clock_now e)) then
                   (case ToString e n of
                      Inl r \<Rightarrow> Inl r
                    | Inr s \<Rightarrow>
                        (let reservationTime = Date_parse e (s @ [32] @ g)
                         in Inr (push_if (js_le (valueOf reservationTime)
                                            (Num (of_int (clock_now e))))
                                   TimeAlreadyPassed)))
                 else Inr []))"

definition validate_gio :: "env \<Rightarrow> json option \<Rightarrow> json option \<Rightarrow> raised + verror list" where
  "validate_gio e d v =
     (if \<not> truthy v then Inr [TimeRequired]
      else
        (case v of
           Some (JStr g) \<Rightarrow>
             (let (hours, minutes) = hours_minutes e g;
                  window = push_if (js_lt hours (Num 10) \<or> js_gt hours (Num 21) \<or>
                                    (js_eq hours (Num 21) \<and> js_gt minutes (Num 30)))
                             TimeOutsideHours
              in case time_passed e d g of
                   Inl r \<Rightarrow> Inl r
                 | Inr passed \<Rightarrow> Inr (window @ passed))
         | _ \<Rightarrow> Inl TypeError))"

definition validate_so_luong_khach :: "env \<Rightarrow> json option \<Rightarrow> raised + verror list" where
  "validate_so_luong_khach e v =
     (case parseInt_of e v of
        Inl r \<Rightarrow> Inl r
      | Inr guests \<Rightarrow>
          Inr (push_if (\<not> truthy v) GuestsRequired @
               push_if (guests = NaN \<or> js_lt guests (Num 1) \<or> js_gt guests (Num 20))
                 GuestsOutOfRange))"

definition validate_ghi_chu :: "env \<Rightarrow> json option \<Rightarrow> raised + verror list" where
  "validate_ghi_chu e v =
     (case v of
        None \<Rightarrow> Inr []
      | Some x \<Rightarrow>
          if \<not> truthy v then Inr []
          else
            (case longer_than e x 500 of
               Inl r \<Rightarrow> Inl r
             | Inr long \<Rightarrow> Inr (push_if long NoteTooLong)))"

text \<open>
  The validator runs its checks in this order and collects every error; when a check
  raises, the validator raises and returns no list.
\<close>

definition and_then :: "raised + verror list \<Rightarrow> raised + verror list \<Rightarrow> raised + verror list" where
  "and_then a b =
     (case a of
        Inl r \<Rightarrow> Inl r
      | Inr xs \<Rightarrow> (case b of Inl r \<Rightarrow> Inl r | Inr ys \<Rightarrow> Inr (xs @ ys)))"

definition validateReservationData :: "env \<Rightarrow> payload \<Rightarrow> raised + verror list" where
  "validateReservationData e data =
     and_then (validate_ten_khach (ten_khach data))
    (and_then (validate_sdt (sdt data))
    (and_then (validate_email e (email data))
    (and_then (validate_ngay e (ngay data))
    (and_then (validate_gio e (ngay data) (gio data))
    (and_then (validate_so_luong_khach e (so_luong_khach data))
              (validate_ghi_chu e (ghi_chu data)))))))"

section \<open>Storage: the table \<open>dat_ban\<close> and \<open>executeQuery\<close>\<close>

text \<open>
  The column \<open>trang_thai\<close> is an enumeration of three values: pending, confirmed and
  cancelled.
\<close>

datatype status = cho_xac_nhan | da_xac_nhan | da_huy

definition status_of :: "jsstring \<Rightarrow> status option" where
  "status_of s =
     (if s = js ''cho_xac_nhan'' then Some cho_xac_nhan
      else if s = js ''da_xac_nhan'' then Some da_xac_nhan
      else if s = js ''da_huy'' then Some da_huy
      else None)"

definition status_of_value :: "json \<Rightarrow> status option" where
  "status_of_value v = (case v of JStr s \<Rightarrow> status_of s | _ \<Rightarrow> None)"

text \<open>
  A row of \<open>dat_ban\<close> (the two timestamps, which no check reads, are left out). The table
  keeps the values it is given and compares them as they are: the conversion of a value to
  the type of its column, the normalisation of dates and times and the collation of the
  database are not modelled. \<open>JNull\<close> is the SQL \<open>NULL\<close>.
\<close>

record reservation =
  id_datban :: int
  row_ten_khach :: json
  row_sdt :: json
  row_email :: json
  row_ngay :: json
  row_gio :: json
  row_so_luong_khach :: json
  row_ghi_chu :: json
  row_trang_thai :: status

text \<open>
  Each call of \<open>executeQuery\<close> meets one of three behaviours of its surroundings: the
  statement runs (\<open>Works\<close>); the driver rejects it (\<open>Rejects\<close>: a lost connection, a
  time-out), which \<open>executeQuery\<close> catches, logs and returns as \<open>{success: false}\<close>;
  or the call itself raises (\<open>Throws\<close>: the routes keep \<open>executeQuery = null\<close> when
  the database module could not be loaded). The list \<open>driver\<close> gives the behaviour of the
  calls to come, one entry per call; past its end every call works.
\<close>

datatype call = Works | Rejects | Throws

datatype logline =
    DatabaseQueryError | ErrorCheckingDuplicate | ErrorCreating | ErrorUpdating
  | ErrorUpdatingStatus

record world =
  dat_ban :: "reservation list"
  auto_increment :: int
  driver :: "call list"
  console :: "logline list"

datatype 'a returned = Thrown | Failed | Succeeded 'a

text \<open>
  A statement maps the table and its counter to the data it returns and the new table and
  counter, or to \<open>None\<close> when it is refused: by the driver for a bound value that is
  \<open>undefined\<close>, by the database for a value that a column cannot hold.
\<close>

type_synonym 'a statement = "reservation list \<times> int \<Rightarrow> ('a \<times> reservation list \<times> int) option"

definition log_line :: "logline \<Rightarrow> world \<Rightarrow> world" where
  "log_line l w = w\<lparr>console := console w @ [l]\<rparr>"

definition executeQuery :: "'a statement \<Rightarrow> world \<Rightarrow> 'a returned \<times> world" where
  "executeQuery q w =
     (let w1 = w\<lparr>driver := tl (driver w)\<rparr> in
      case driver w of
        Throws # _ \<Rightarrow> (Thrown, w1)
      | Rejects # _ \<Rightarrow> (Failed, log_line DatabaseQueryError w1)
      | _ \<Rightarrow>
          (case q (dat_ban w, auto_increment w) of
             None \<Rightarrow> (Failed, log_line DatabaseQueryError w1)
           | Some (d, rows, counter) \<Rightarrow>
               (Succeeded d, w1\<lparr>dat_ban := rows, auto_increment := counter\<rparr>)))"

text \<open>
  \<open>SELECT COUNT(*) FROM dat_ban WHERE sdt = ? AND ngay = ? AND gio = ? AND trang_thai != 'da_huy'\<close>,
  followed by \<open>AND id_datban != ?\<close> when an id is to be left out. A comparison with
  \<open>NULL\<close> is not true of any row.
\<close>

definition active_match :: "json \<Rightarrow> json \<Rightarrow> json \<Rightarrow> int option \<Rightarrow> reservation \<Rightarrow> bool" where
  "active_match s d g exclude r \<longleftrightarrow>
     s \<noteq> JNull \<and> d \<noteq> JNull \<and> g \<noteq> JNull \<and>
     row_sdt r = s \<and> row_ngay r = d \<and> row_gio r = g \<and> row_trang_thai r \<noteq> da_huy \<and>
     (case exclude of None \<Rightarrow> True | Some i \<Rightarrow> id_datban r \<noteq> i)"

definition count_active ::
  "json option \<Rightarrow> json option \<Rightarrow> json option \<Rightarrow> int option \<Rightarrow> nat statement" where
  "count_active phone day hour exclude =
     (\<lambda>(rows, counter).
        case (phone, day, hour) of
          (Some s, Some d, Some g) \<Rightarrow>
            Some (length (filter (active_match s d g exclude) rows), rows, counter)
        | _ \<Rightarrow> None)"

text \<open>\<open>SELECT * FROM dat_ban WHERE id_datban = ?\<close>\<close>

definition select_by_id :: "int \<Rightarrow> reservation list statement" where
  "select_by_id i = (\<lambda>(rows, counter). Some (filter (\<lambda>r. id_datban r = i) rows, rows, counter))"

text \<open>
  The values bound to an \<open>INSERT\<close> or a full \<open>UPDATE\<close>. The columns \<open>ten_khach\<close>,
  \<open>sdt\<close>, \<open>ngay\<close>, \<open>gio\<close> and \<open>so_luong_khach\<close> are \<open>NOT NULL\<close> and
  \<open>trang_thai\<close> takes a name of the enumeration only: the database refuses anything else.
\<close>

record bound_values =
  v_ten_khach :: json
  v_sdt :: json
  v_email :: json
  v_ngay :: "json option"
  v_gio :: "json option"
  v_so_luong_khach :: json
  v_ghi_chu :: json
  v_trang_thai :: json

definition row_of :: "int \<Rightarrow> bound_values \<Rightarrow> reservation option" where
  "row_of i v =
     (case (v_ngay v, v_gio v, status_of_value (v_trang_thai v)) of
        (Some d, Some g, Some st) \<Rightarrow>
          if v_ten_khach v = JNull \<or> v_sdt v = JNull \<or> d = JNull \<or> g = JNull \<or>
             v_so_luong_khach v = JNull
          then None
          else
            Some \<lparr> id_datban = i, row_ten_khach = v_ten_khach v, row_sdt = v_sdt v,
                   row_email = v_email v, row_ngay = d, row_gio = g,
                   row_so_luong_khach = v_so_luong_khach v,
                   row_ghi_chu = v_ghi_chu v, row_trang_thai = st \<rparr>
      | _ \<Rightarrow> None)"

text \<open>
  \<open>INSERT INTO dat_ban (\<dots>) VALUES (\<dots>)\<close>: the new row takes the next value of the
  \<open>AUTO_INCREMENT\<close> counter, which is returned as \<open>insertId\<close>.
\<close>

definition insert_row :: "bound_values \<Rightarrow> int statement" where
  "insert_row v =
     (\<lambda>(rows, counter).
        case row_of counter v of
          None \<Rightarrow> None
        | Some r \<Rightarrow> Some (counter, rows @ [r], counter + 1))"

text \<open>\<open>UPDATE dat_ban SET \<dots> WHERE id_datban = ?\<close> with all columns.\<close>

definition update_row :: "int \<Rightarrow> bound_values \<Rightarrow> unit statement" where
  "update_row i v =
     (\<lambda>(rows, counter).
        case row_of i v of
          None \<Rightarrow> None
        | Some r \<Rightarrow> Some ((), map (\<lambda>old. if id_datban old = i then r else old) rows, counter))"

text \<open>\<open>UPDATE dat_ban SET trang_thai = ?, updated_at = CURRENT_TIMESTAMP WHERE id_datban = ?\<close>\<close>

definition update_status :: "int \<Rightarrow> json \<Rightarrow> unit statement" where
  "update_status i s =
     (\<lambda>(rows, counter).
        case status_of_value s of
          None \<Rightarrow> None
        | Some st \<Rightarrow>
            Some ((), map (\<lambda>old. if id_datban old = i then old\<lparr>row_trang_thai := st\<rparr> else old) rows,
                  counter))"

text \<open>
  The dynamic \<open>UPDATE\<close> of the partial update: every field present in the body is written
  as it is, a \<open>null\<close> as \<open>NULL\<close>.
\<close>

definition set_opt :: "'a option \<Rightarrow> 'a \<Rightarrow> 'a" where
  "set_opt v old = (case v of None \<Rightarrow> old | Some x \<Rightarrow> x)"

definition apply_updates :: "payload \<Rightarrow> status \<Rightarrow> reservation \<Rightarrow> reservation" where
  "apply_updates u st old =
     old\<lparr> row_ten_khach := set_opt (ten_khach u) (row_ten_khach old),
          row_sdt := set_opt (sdt u) (row_sdt old),
          row_email := set_opt (email u) (row_email old),
          row_ngay := set_opt (ngay u) (row_ngay old),
          row_gio := set_opt (gio u) (row_gio old),
          row_so_luong_khach := set_opt (so_luong_khach u) (row_so_luong_khach old),
          row_ghi_chu := set_opt (ghi_chu u) (row_ghi_chu old),
          row_trang_thai := st \<rparr>"

definition update_fields :: "int \<Rightarrow> payload \<Rightarrow> unit statement" where
  "update_fields i u =
     (\<lambda>(rows, counter).
        if Some JNull \<in> set [ten_khach u, sdt u, ngay u, gio u, so_luong_khach u] then None
        else
          (case trang_thai u of
             None \<Rightarrow>
               Some ((), map (\<lambda>old. if id_datban old = i
                                     then apply_updates u (row_trang_thai old) old else old) rows,
                     counter)
           | Some s \<Rightarrow>
               (case status_of_value s of
                  None \<Rightarrow> None
                | Some st \<Rightarrow>
                    Some ((), map (\<lambda>old. if id_datban old = i then apply_updates u st old else old)
                                rows,
                          counter))))"

section \<open>Conflict detector (\<open>checkDuplicateReservation\<close>)\<close>

text \<open>
  The three values are bound to the query as they come (\<open>None\<close> is \<open>undefined\<close>). The
  optional \<open>excludeId\<close> is \<open>None\<close> for the default \<open>null\<close>; the source tests it with
  \<open>if (excludeId)\<close>, so the id 0 adds no clause either. The \<open>try\<close>/\<open>catch\<close> around the
  query turns a raised error into a log line and the answer \<open>false\<close>.
\<close>

definition checkDuplicateReservation ::
  "json option \<Rightarrow> json option \<Rightarrow> json option \<Rightarrow> int option \<Rightarrow> world \<Rightarrow> bool \<times> world" where
  "checkDuplicateReservation s d g excludeId w =
     (let exclude = (case excludeId of None \<Rightarrow> None | Some i \<Rightarrow> if i = 0 then None else Some i)
      in case executeQuery (count_active s d g exclude) w of
           (Succeeded n, w') \<Rightarrow> (0 < n, w')
         | (Failed, w') \<Rightarrow> (False, w')
         | (Thrown, w') \<Rightarrow> (False, log_line ErrorCheckingDuplicate w'))"

section \<open>Reservation routes\<close>

text \<open>
  The messages of the responses: invalid data, already booked at this time (create),
  another booking at this time (update), created, could not create, invalid id, not found,
  updated, could not update, nothing to update, invalid status, status updated, could not
  update the status.
\<close>

datatype message =
    InvalidData | AlreadyBooked | OtherBookingAtThisTime | Created | CreateFailed
  | InvalidId | NotFound | Updated | UpdateFailed | NothingToUpdate
  | InvalidStatus | StatusUpdated | StatusUpdateFailed

record response =
  code :: nat
  success :: bool
  message :: message
  errors :: "verror list option"
  data :: "reservation option"
  insert_id :: "int option"

definition failure :: "nat \<Rightarrow> message \<Rightarrow> response" where
  "failure c m =
     \<lparr> code = c, success = False, message = m, errors = None, data = None, insert_id = None \<rparr>"

text \<open>\<open>rows[0]\<close> of a result set: \<open>undefined\<close> when it is empty.\<close>

definition first_row :: "reservation list \<Rightarrow> reservation option" where
  "first_row rows = (case rows of [] \<Rightarrow> None | r # _ \<Rightarrow> Some r)"

text \<open>
  The values that the create route and the full update bind. \<open>x.trim()\<close> raises unless
  \<open>x\<close> is a string; the email and the note are trimmed when truthy and \<open>null\<close>
  otherwise; the date and the time are bound as they came; the party size is
  \<open>parseInt\<close> of the field.
\<close>

definition trimmed :: "json option \<Rightarrow> raised + json" where
  "trimmed v = (case v of Some (JStr s) \<Rightarrow> Inr (JStr (trim s)) | _ \<Rightarrow> Inl TypeError)"

definition trim_or_null :: "json option \<Rightarrow> raised + json" where
  "trim_or_null v = (if truthy v then trimmed v else Inr JNull)"

definition bind_values :: "env \<Rightarrow> payload \<Rightarrow> json \<Rightarrow> raised + bound_values" where
  "bind_values e d st =
     (case (trimmed (ten_khach d), trimmed (sdt d), trim_or_null (email d),
            parseInt_of e (so_luong_khach d), trim_or_null (ghi_chu d)) of
        (Inr name, Inr phone, Inr mail, Inr guests, Inr note) \<Rightarrow>
          Inr \<lparr> v_ten_khach = name, v_sdt = phone, v_email = mail,
                v_ngay = ngay d, v_gio = gio d,
                v_so_luong_khach = JNum guests, v_ghi_chu = note,
                v_trang_thai = st \<rparr>
      | _ \<Rightarrow> Inl TypeError)"

text \<open>
  \<open>POST /api/datban\<close>. An error raised by the validator or while the values are bound,
  an unsuccessful insert, and the read of \<open>selectResult.data[0]\<close> of an unsuccessful
  re-read all end in the handler's \<open>catch\<close>, which logs and answers 500.
\<close>

definition post_datban :: "env \<Rightarrow> payload \<Rightarrow> world \<Rightarrow> response \<times> world" where
  "post_datban e d w =
     (case validateReservationData e d of
        Inl _ \<Rightarrow> (failure 500 CreateFailed, log_line ErrorCreating w)
      | Inr validationErrors \<Rightarrow>
          if validationErrors \<noteq> [] then
            ((failure 400 InvalidData)\<lparr>errors := Some validationErrors\<rparr>, w)
          else
            (case checkDuplicateReservation (sdt d) (ngay d) (gio d) None w of
               (True, w1) \<Rightarrow> (failure 400 AlreadyBooked, w1)
             | (False, w1) \<Rightarrow>
                 (case bind_values e d (JStr (js ''cho_xac_nhan'')) of
                    Inl _ \<Rightarrow> (failure 500 CreateFailed, log_line ErrorCreating w1)
                  | Inr params \<Rightarrow>
                      (case executeQuery (insert_row params) w1 of
                         (Succeeded insertId, w2) \<Rightarrow>
                           (case executeQuery (select_by_id insertId) w2 of
                              (Succeeded found, w3) \<Rightarrow>
                                (\<lparr> code = 201, success = True, message = Created, errors = None,
                                    data = first_row found, insert_id = Some insertId \<rparr>, w3)
                            | (_, w3) \<Rightarrow> (failure 500 CreateFailed, log_line ErrorCreating w3))
                       | (_, w2) \<Rightarrow> (failure 500 CreateFailed, log_line ErrorCreating w2)))))"

text \<open>
  \<open>PUT /api/datban/:id\<close>. The id is \<open>parseInt\<close> of the path parameter, \<open>None\<close> for
  \<open>NaN\<close>. The status written is \<open>data.trang_thai || 'cho_xac_nhan'\<close>.
\<close>

definition or_default :: "json option \<Rightarrow> json \<Rightarrow> json" where
  "or_default v d = (case v of None \<Rightarrow> d | Some x \<Rightarrow> if truthy v then x else d)"

definition put_datban :: "env \<Rightarrow> int option \<Rightarrow> payload \<Rightarrow> world \<Rightarrow> response \<times> world" where
  "put_datban e ident d w =
     (case ident of
        None \<Rightarrow> (failure 400 InvalidId, w)
      | Some i \<Rightarrow>
          (case executeQuery (select_by_id i) w of
             (Thrown, w1) \<Rightarrow> (failure 500 UpdateFailed, log_line ErrorUpdating w1)
           | (Failed, w1) \<Rightarrow> (failure 404 NotFound, w1)
           | (Succeeded [], w1) \<Rightarrow> (failure 404 NotFound, w1)
           | (Succeeded (_ # _), w1) \<Rightarrow>
               (case validateReservationData e d of
                  Inl _ \<Rightarrow> (failure 500 UpdateFailed, log_line ErrorUpdating w1)
                | Inr validationErrors \<Rightarrow>
                    if validationErrors \<noteq> [] then
                      ((failure 400 InvalidData)\<lparr>errors := Some validationErrors\<rparr>, w1)
                    else
                      (case checkDuplicateReservation (sdt d) (ngay d) (gio d) (Some i) w1 of
                         (True, w2) \<Rightarrow> (failure 400 OtherBookingAtThisTime, w2)
                       | (False, w2) \<Rightarrow>
                           (case bind_values e d
                                   (or_default (trang_thai d) (JStr (js ''cho_xac_nhan''))) of
                              Inl _ \<Rightarrow> (failure 500 UpdateFailed, log_line ErrorUpdating w2)
                            | Inr params \<Rightarrow>
                                (case executeQuery (update_row i params) w2 of
                                   (Succeeded _, w3) \<Rightarrow>
                                     (case executeQuery (select_by_id i) w3 of
                                        (Succeeded found, w4) \<Rightarrow>
                                          (\<lparr> code = 200, success = True, message = Updated,
                                              errors = None, data = first_row found,
                                              insert_id = None \<rparr>, w4)
                                      | (_, w4) \<Rightarrow>
                                          (failure 500 UpdateFailed, log_line ErrorUpdating w4))
                                 | (_, w3) \<Rightarrow>
                                     (failure 500 UpdateFailed, log_line ErrorUpdating w3)))))))"

text \<open>
  \<open>PATCH /api/datban/:id/status\<close>: the body's \<open>trang_thai\<close> must be one of the three
  status names; the current status of the row is not read.
\<close>

definition patch_status :: "int option \<Rightarrow> json option \<Rightarrow> world \<Rightarrow> response \<times> world" where
  "patch_status ident st w =
     (case ident of
        None \<Rightarrow> (failure 400 InvalidId, w)
      | Some i \<Rightarrow>
          (case st of
             None \<Rightarrow> (failure 400 InvalidStatus, w)
           | Some s \<Rightarrow>
               if \<not> truthy st \<or>
                  s \<notin> set [JStr (js ''cho_xac_nhan''), JStr (js ''da_xac_nhan''), JStr (js ''da_huy'')]
               then (failure 400 InvalidStatus, w)
               else
                 (case executeQuery (select_by_id i) w of
                    (Thrown, w1) \<Rightarrow>
                      (failure 500 StatusUpdateFailed, log_line ErrorUpdatingStatus w1)
                  | (Failed, w1) \<Rightarrow> (failure 404 NotFound, w1)
                  | (Succeeded [], w1) \<Rightarrow> (failure 404 NotFound, w1)
                  | (Succeeded (_ # _), w1) \<Rightarrow>
                      (case executeQuery (update_status i s) w1 of
                         (Succeeded _, w2) \<Rightarrow>
                           (case executeQuery (select_by_id i) w2 of
                              (Succeeded found, w3) \<Rightarrow>
                                (\<lparr> code = 200, success = True, message = StatusUpdated,
                                    errors = None, data = first_row found, insert_id = None \<rparr>,
                                 w3)
                            | (_, w3) \<Rightarrow>
                                (failure 500 StatusUpdateFailed, log_line ErrorUpdatingStatus w3))
                       | (_, w2) \<Rightarrow>
                           (failure 500 StatusUpdateFailed, log_line ErrorUpdatingStatus w2)))))"

text \<open>
  \<open>PATCH /api/datban/:id\<close>: every allowed field present in the body is written, a
  \<open>null\<close> included; the handler runs neither the validator nor the conflict detector.
\<close>

definition no_fields :: "payload \<Rightarrow> bool" where
  "no_fields u \<longleftrightarrow>
     ten_khach u = None \<and> sdt u = None \<and> email u = None \<and> ngay u = None \<and> gio u = None \<and>
     so_luong_khach u = None \<and> ghi_chu u = None \<and> trang_thai u = None"

definition patch_datban :: "int option \<Rightarrow> payload \<Rightarrow> world \<Rightarrow> response \<times> world" where
  "patch_datban ident u w =
     (case ident of
        None \<Rightarrow> (failure 400 InvalidId, w)
      | Some i \<Rightarrow>
          (case executeQuery (select_by_id i) w of
             (Thrown, w1) \<Rightarrow> (failure 500 UpdateFailed, log_line ErrorUpdating w1)
           | (Failed, w1) \<Rightarrow> (failure 404 NotFound, w1)
           | (Succeeded [], w1) \<Rightarrow> (failure 404 NotFound, w1)
           | (Succeeded (_ # _), w1) \<Rightarrow>
               if no_fields u then (failure 400 NothingToUpdate, w1)
               else
                 (case executeQuery (update_fields i u) w1 of
                    (Succeeded _, w2) \<Rightarrow>
                      (case executeQuery (select_by_id i) w2 of
                         (Succeeded found, w3) \<Rightarrow>
                           (\<lparr> code = 200, success = True, message = Updated, errors = None,
                               data = first_row found, insert_id = None \<rparr>, w3)
                       | (_, w3) \<Rightarrow> (failure 500 UpdateFailed, log_line ErrorUpdating w3))
                  | (_, w2) \<Rightarrow> (failure 500 UpdateFailed, log_line ErrorUpdating w2))))"

text \<open>
  The invariant of the data model: among the reservations that are not cancelled, no two
  have the same phone, date and time.
\<close>

definition slot :: "reservation \<Rightarrow> json \<times> json \<times> json" where
  "slot r = (row_sdt r, row_ngay r, row_gio r)"

definition active :: "reservation \<Rightarrow> bool" where
  "active r \<longleftrightarrow> row_trang_thai r \<noteq> da_huy"

definition one_active_per_slot :: "reservation list \<Rightarrow> bool" where
  "one_active_per_slot rows \<longleftrightarrow> distinct (map slot (filter active rows))"

text \<open>
  What \<open>AUTO_INCREMENT PRIMARY KEY\<close> maintains: ids are positive, distinct and below the
  counter.
\<close>

definition keys_ok :: "world \<Rightarrow> bool" where
  "keys_ok w \<longleftrightarrow>
     0 < auto_increment w \<and> distinct (map id_datban (dat_ban w)) \<and>
     list_all (\<lambda>r. 0 < id_datban r \<and> id_datban r < auto_increment w) (dat_ban w)"

section \<open>List requests: the page window\<close>

text \<open>
  \<open>GET /api/datban\<close> computes its window from the query string; \<open>limit\<close> goes into the
  \<open>LIMIT\<close> of the query and into the pagination of the response.
\<close>

record list_window =
  page :: jsnum
  page_limit :: jsnum
  page_offset :: jsnum

definition get_datban_window :: "jsstring option \<Rightarrow> jsstring option \<Rightarrow> list_window" where
  "get_datban_window query_page query_limit =
     (let page = js_or (parseInt query_page) (Num 1);
          limit = js_or (parseInt query_limit) (Num 20);
          offset = js_mul (js_sub page (Num 1)) limit
      in \<lparr> page = page, page_limit = limit, page_offset = offset \<rparr>)"

text \<open>
  \<open>FoodController.getAllFoods\<close>: \<open>limit\<close> defaults to the number 50 when the query has
  none, and \<open>Math.min(parseInt(limit), 100)\<close> is what the model and the envelope get.
\<close>

definition getAllFoods_limit :: "jsstring option \<Rightarrow> jsnum" where
  "getAllFoods_limit query_limit =
     Math_min (parseInt (Some (case query_limit of None \<Rightarrow> js ''50'' | Some s \<Rightarrow> s))) (Num 100)"

section \<open>Query and filter builder (\<open>sanitizeSearchQuery\<close>, \<open>buildWhereClause\<close>)\<close>

datatype jsval = Undefined | Null | Str jsstring | Number jsnum

text \<open>
  Trim, drop \<open><\<close> (60) and \<open>>\<close> (62), put a backslash (92) before every \<open>%\<close> (37) and
  \<open>_\<close> (95), keep the first 100 code units. Anything that is not a non-empty string gives
  the empty string.
\<close>

definition sanitizeSearchQuery :: "jsval \<Rightarrow> jsstring" where
  "sanitizeSearchQuery query =
     (case query of
        Str s \<Rightarrow>
          if s = [] then []
          else substring0 100
                 (concat (map (\<lambda>c. if c = 37 \<or> c = 95 then [92, c] else [c])
                            (filter (\<lambda>c. c \<noteq> 60 \<and> c \<noteq> 62) (trim s))))
      | _ \<Rightarrow> [])"

definition searchTerm :: "jsval \<Rightarrow> jsstring" where
  "searchTerm v = [37] @ sanitizeSearchQuery v @ [37]"

text \<open>One entry of the filter object: the conditions and parameters it adds.\<close>

definition where_entry :: "string \<times> jsval \<Rightarrow> string list \<times> jsval list" where
  "where_entry kv =
     (case kv of (key, v) \<Rightarrow>
        if v = Undefined \<or> v = Null \<or> v = Str [] then ([], [])
        else if key = ''search'' then
          ([''(m.ten_mon LIKE ? OR m.mo_ta LIKE ? OR l.ten_loai LIKE ?)''],
           [Str (searchTerm v), Str (searchTerm v), Str (searchTerm v)])
        else if key = ''category'' then ([''m.id_loai = ?''], [v])
        else if key = ''minPrice'' then ([''m.gia >= ?''], [v])
        else if key = ''maxPrice'' then ([''m.gia <= ?''], [v])
        else if key = ''available'' then
          (if v = Str (js ''true'') then ([''m.so_luong > 0''], [])
           else if v = Str (js ''false'') then ([''m.so_luong = 0''], [])
           else ([], []))
        else ([], []))"

fun join_and :: "string list \<Rightarrow> string" where
  "join_and [] = []"
| "join_and [c] = c"
| "join_and (c # cs) = c @ '' AND '' @ join_and cs"

record where_clause =
  whereClause :: string
  params :: "jsval list"

definition buildWhereClause :: "(string \<times> jsval) list \<Rightarrow> where_clause" where
  "buildWhereClause filters =
     (let conditions = concat (map (fst \<circ> where_entry) filters);
          ps = concat (map (snd \<circ> where_entry) filters)
      in \<lparr> whereClause = (if conditions \<noteq> [] then ''AND '' @ join_and conditions else []),
           params = ps \<rparr>)"

text \<open>
  \<open>FoodModel.getAll\<close>, the query behind the food list, builds its own pattern from
  \<open>filters.search\<close> as it comes.
\<close>

definition getAll_searchTerm :: "jsstring \<Rightarrow> jsstring" where
  "getAll_searchTerm search = [37] @ search @ [37]"

text \<open>
  What the database does with a \<open>LIKE\<close> pattern (MySQL, escape character backslash): \<open>%\<close>
  stands for any run of characters, \<open>_\<close> for any one character, a backslash makes the
  character after it stand for itself, and every other character stands for itself.
  Case folding by the collation is not modelled.
\<close>

datatype like_token = Lit nat | AnyOne | AnyRun

fun like_tokens :: "jsstring \<Rightarrow> like_token list" where
  "like_tokens [] = []"
| "like_tokens [c] = (if c = 37 then [AnyRun] else if c = 95 then [AnyOne] else [Lit c])"
| "like_tokens (c # d # cs) =
     (if c = 92 then Lit d # like_tokens cs
      else if c = 37 then AnyRun # like_tokens (d # cs)
      else if c = 95 then AnyOne # like_tokens (d # cs)
      else Lit c # like_tokens (d # cs))"

fun like_match :: "like_token list \<Rightarrow> jsstring \<Rightarrow> bool" where
  "like_match [] s = (s = [])"
| "like_match (Lit c # p) [] = False"
| "like_match (Lit c # p) (x # xs) = (x = c \<and> like_match p xs)"
| "like_match (AnyOne # p) [] = False"
| "like_match (AnyOne # p) (x # xs) = like_match p xs"
| "like_match (AnyRun # p) [] = like_match p []"
| "like_match (AnyRun # p) (x # xs) = (like_match p (x # xs) \<or> like_match (AnyRun # p) xs)"

definition js_like :: "jsstring \<Rightarrow> jsstring \<Rightarrow> bool" where
  "js_like column pattern = like_match (like_tokens pattern) column"

text \<open>A string contains another as a run of consecutive code units.\<close>

fun contains :: "jsstring \<Rightarrow> jsstring \<Rightarrow> bool" where
  "contains [] x = (x = [])"
| "contains (c # cs) x = (take (length x) (c # cs) = x \<or> contains cs x)"

section \<open>Conditions on the surroundings\<close>

text \<open>The call of \<open>executeQuery\<close> number \<open>n\<close> from now (counting from 0) works.\<close>

definition call_works :: "nat \<Rightarrow> world \<Rightarrow> bool" where
  "call_works n w = (case drop n (driver w) of [] \<Rightarrow> True | c # _ \<Rightarrow> c = Works)"


section \<open>Example requests\<close>

text \<open>
  The surroundings of the examples: the clock reads 2026-11-02 15:00 in a zone seven hours
  ahead of UTC, and the conversions are given on the strings and numbers the examples use
  (a date alone is read as midnight UTC, a date with a time as local time).
\<close>

definition example_dates :: "jsstring \<Rightarrow> int option" where
  "example_dates s =
     (if s = js ''2026-11-03'' then Some 1793664000000
      else if s = js ''2026-11-02'' then Some 1793577600000
      else if s = js ''2026-11-01'' then Some 1793491200000
      else if s = js ''2026-12-03'' then Some 1796256000000
      else None)"

definition example_numbers :: "jsstring \<Rightarrow> jsnum" where
  "example_numbers s =
     (if s = js ''19'' then Num 19
      else if s = js ''11'' then Num 11
      else if s = js ''22'' then Num 22
      else if s = js ''21'' then Num 21
      else if s = js ''20'' then Num 20
      else if s = js ''10'' then Num 10
      else if s = js ''30'' then Num 30
      else if s = js ''31'' then Num 31
      else if s = js ''99'' then Num 99
      else if s = js ''-5'' then Num (- 5)
      else if s = js ''00'' then Num 0
      else NaN)"

definition example_decimal :: "rat \<Rightarrow> jsstring" where
  "example_decimal q =
     (if q = 4 then js ''4''
      else if q = 12345 then js ''12345''
      else if q = 1000000000000000000000 then js ''1e+21''
      else [])"

definition example_env :: env where
  "example_env =
     \<lparr> clock_now = 1793606400000,
       tz_offset = 25200000,
       Date_parse =
         (\<lambda>s. if s = js ''2026-11-03 19:00'' then Some 1793707200000
              else if s = js ''2026-11-02 11:00'' then Some 1793592000000
              else example_dates s),
       to_Number = example_numbers,
       Number_toString = example_decimal \<rparr>"

text \<open>
  The same day at 20:00 in a zone five hours behind UTC; a date alone is still read as
  midnight UTC.
\<close>

definition example_env_behind_utc :: env where
  "example_env_behind_utc =
     \<lparr> clock_now = 1793667600000,
       tz_offset = - 18000000,
       Date_parse = example_dates,
       to_Number = example_numbers,
       Number_toString = example_decimal \<rparr>"

definition example_request :: payload where
  "example_request =
     \<lparr> ten_khach = Some (JStr (js ''Nguyen Van A'')), sdt = Some (JStr (js ''0912345678'')),
       email = None, ngay = Some (JStr (js ''2026-11-03'')), gio = Some (JStr (js ''19:00'')),
       so_luong_khach = Some (JNum (Num 4)), ghi_chu = None, trang_thai = None \<rparr>"

definition example_row :: "int \<Rightarrow> status \<Rightarrow> reservation" where
  "example_row i st =
     \<lparr> id_datban = i, row_ten_khach = JStr (js ''Nguyen Van A''),
       row_sdt = JStr (js ''0912345678''), row_email = JNull,
       row_ngay = JStr (js ''2026-11-03''), row_gio = JStr (js ''19:00''),
       row_so_luong_khach = JNum (Num 4), row_ghi_chu = JNull, row_trang_thai = st \<rparr>"

definition example_world :: "reservation list \<Rightarrow> call list \<Rightarrow> world" where
  "example_world rows calls =
     \<lparr> dat_ban = rows, auto_increment = 1 + int (length rows), driver = calls, console = [] \<rparr>"

section \<open>Results about numbers\<close>

lemma round_half_even_int [simp]: "round_half_even (of_int k) = k"
  by (simp add: round_half_even_def)

lemma round_half_even_bounds: "\<lfloor>x\<rfloor> \<le> round_half_even x \<and> round_half_even x \<le> \<lfloor>x\<rfloor> + 1"
  by (simp add: round_half_even_def Let_def)

lemma round_half_even_near: "\<bar>of_int (round_half_even x) - x\<bar> \<le> 1 / 2"
proof -
  have "of_int \<lfloor>x\<rfloor> \<le> x" "x < of_int \<lfloor>x\<rfloor> + 1"
    by linarith+
  then show ?thesis
    by (auto simp: round_half_even_def Let_def abs_le_iff)
qed

lemma pow2_nat: "0 \<le> k \<Longrightarrow> (2::rat) ^ nat k = 2 powi k"
  by (simp add: power_int_nonneg_exp)

lemma ilog2_bounds:
  assumes "0 < q"
  shows "2 powi ilog2 q \<le> q" and "q < 2 powi (ilog2 q + 1)"
proof -
  obtain p d where pd: "quotient_of q = (p, d)"
    by (cases "quotient_of q")
  then have d: "0 < d" and q: "q = of_int p / of_int d"
    by (simp_all add: quotient_of_denom_pos quotient_of_div)
  with assms have p: "0 < p"
    by (simp add: zero_less_divide_iff)
  define c where "c = bitlen p - bitlen d"
  have bp: "1 \<le> bitlen p" and bd: "1 \<le> bitlen d"
    using p d bitlen_eq_zero_iff [of p] bitlen_eq_zero_iff [of d] bitlen_nonneg [of p]
      bitlen_nonneg [of d] by linarith+
  have p1: "(2::rat) powi (bitlen p - 1) \<le> of_int p" and p2: "of_int p < (2::rat) powi bitlen p"
  proof -
    have "2 ^ nat (bitlen p - 1) \<le> p" "p < 2 ^ nat (bitlen p)"
      using bitlen_bounds [OF p] by simp_all
    then have "rat_of_int (2 ^ nat (bitlen p - 1)) \<le> of_int p"
      "rat_of_int p < of_int (2 ^ nat (bitlen p))"
      by (simp_all only: of_int_le_iff of_int_less_iff)
    then show "(2::rat) powi (bitlen p - 1) \<le> of_int p" "of_int p < (2::rat) powi bitlen p"
      using bp by (simp_all add: power_int_nonneg_exp)
  qed
  have d1: "(2::rat) powi (bitlen d - 1) \<le> of_int d" and d2: "of_int d < (2::rat) powi bitlen d"
  proof -
    have "2 ^ nat (bitlen d - 1) \<le> d" "d < 2 ^ nat (bitlen d)"
      using bitlen_bounds [OF d] by simp_all
    then have "rat_of_int (2 ^ nat (bitlen d - 1)) \<le> of_int d"
      "rat_of_int d < of_int (2 ^ nat (bitlen d))"
      by (simp_all only: of_int_le_iff of_int_less_iff)
    then show "(2::rat) powi (bitlen d - 1) \<le> of_int d" "of_int d < (2::rat) powi bitlen d"
      using bd by (simp_all add: power_int_nonneg_exp)
  qed
  have dpos: "0 < rat_of_int d" using d by simp
  have upper: "q < 2 powi (c + 1)"
  proof -
    have "q * of_int d < 2 powi bitlen p"
      using p2 q dpos by simp
    also have "\<dots> = 2 powi (c + 1) * 2 powi (bitlen d - 1)"
      by (simp add: c_def flip: power_int_add)
    also have "\<dots> \<le> 2 powi (c + 1) * of_int d"
      using d1 by (intro mult_left_mono) simp_all
    finally show ?thesis
      using dpos by simp
  qed
  have lower: "2 powi (c - 1) \<le> q"
  proof -
    have "(2::rat) powi (c - 1) * of_int d \<le> 2 powi (c - 1) * 2 powi bitlen d"
      using d2 by (intro mult_left_mono) simp_all
    also have "\<dots> = 2 powi (bitlen p - 1)"
      by (simp add: c_def flip: power_int_add)
    also have "\<dots> \<le> q * of_int d"
      using p1 q dpos by simp
    finally show ?thesis
      using dpos by simp
  qed
  have val: "ilog2 q = (if 2 powi c \<le> q then c else c - 1)"
    by (simp add: ilog2_def pd c_def Let_def)
  show "2 powi ilog2 q \<le> q"
    using lower by (simp add: val)
  show "q < 2 powi (ilog2 q + 1)"
    using upper by (auto simp: val not_le)
qed

lemma ilog2_unique:
  assumes "0 < q" and "2 powi L \<le> q" and "q < 2 powi (L + 1)"
  shows "ilog2 q = L"
proof -
  have a: "(2::rat) powi ilog2 q < 2 powi (L + 1)"
    using ilog2_bounds(1) [OF assms(1)] assms(3) by simp
  have b: "(2::rat) powi L < 2 powi (ilog2 q + 1)"
    using ilog2_bounds(2) [OF assms(1)] assms(2) by simp
  have "ilog2 q < L + 1"
  proof (rule ccontr)
    assume "\<not> ilog2 q < L + 1"
    then have "(2::rat) powi (L + 1) \<le> 2 powi ilog2 q"
      by (intro power_int_increasing) simp_all
    with a show False by simp
  qed
  moreover have "L < ilog2 q + 1"
  proof (rule ccontr)
    assume "\<not> L < ilog2 q + 1"
    then have "(2::rat) powi (ilog2 q + 1) \<le> 2 powi L"
      by (intro power_int_increasing) simp_all
    with b show False by simp
  qed
  ultimately show ?thesis by simp
qed


lemma double_of_at:
  assumes q: "0 < q" and lo: "2 powi L \<le> q" and hi: "q < 2 powi (L + 1)"
    and L1: "- 1022 \<le> L" and L2: "L \<le> 1022"
  shows "double_of q = Num (of_int (round_half_even (q / 2 powi (L - 52))) * 2 powi (L - 52))"
proof -
  have il: "ilog2 q = L"
    using ilog2_unique [OF q lo hi] .
  have e: "max (ilog2 q - 52) (- 1074) = L - 52"
    using il L1 by simp
  define x where "x = q / 2 powi (L - 52)"
  have xlt: "x < 2 ^ 53"
  proof -
    have "x < 2 powi (L + 1) / 2 powi (L - 52)"
      unfolding x_def using hi by (simp add: divide_strict_right_mono)
    also have "\<dots> = 2 powi 53"
      by (simp flip: power_int_diff)
    finally show ?thesis by simp
  qed
  then have "\<lfloor>x\<rfloor> < 2 ^ 53"
    by (simp add: floor_less_iff)
  then have "round_half_even x \<le> 2 ^ 53"
    using round_half_even_bounds [of x] by linarith
  then have "rat_of_int (round_half_even x) \<le> of_int (2 ^ 53)"
    by (simp only: of_int_le_iff)
  then have "of_int (round_half_even x) * 2 powi (L - 52) \<le> 2 ^ 53 * (2::rat) powi (L - 52)"
    by (intro mult_right_mono) simp_all
  also have "\<dots> = 2 powi (L + 1)"
  proof -
    have "(2::rat) powi 53 * 2 powi (L - 52) = 2 powi (53 + (L - 52))"
      by (subst power_int_add) simp_all
    then show ?thesis
      by (simp add: add.commute)
  qed
  also have "\<dots> \<le> 2 powi 1023"
    using L2 by (intro power_int_increasing) simp_all
  also have "\<dots> < (2::rat) powi 1024"
    by (intro power_int_strict_increasing) simp_all
  finally have "\<not> (2::rat) powi 1024 \<le> of_int (round_half_even x) * 2 powi (L - 52)"
    by (simp only: not_le)
  then show ?thesis
    using q by (simp add: double_of_def e Let_def x_def)
qed

lemma double_of_int:
  assumes "0 \<le> n" and "n \<le> 2 ^ 53"
  shows "double_of (of_int n) = Num (of_int n)"
proof (cases "n = 0")
  case True
  then show ?thesis by (simp add: double_of_def)
next
  case False
  with assms have npos: "0 < n" by simp
  define q where "q = rat_of_int n"
  have q: "0 < q" "1 \<le> q" "q \<le> 2 ^ 53"
    using npos assms(2) unfolding q_def
    by (simp_all add: of_int_le_iff [of n "2 ^ 53", where ?'a = rat, simplified])
  define L where "L = ilog2 q"
  have lo: "2 powi L \<le> q" and hi: "q < 2 powi (L + 1)"
    using ilog2_bounds [OF q(1)] by (simp_all add: L_def)
  have L0: "0 \<le> L"
  proof (rule ccontr)
    assume "\<not> 0 \<le> L"
    then have "(2::rat) powi (L + 1) \<le> 2 powi 0"
      by (intro power_int_increasing) simp_all
    with hi q(2) show False by simp
  qed
  have L53: "L \<le> 53"
  proof (rule ccontr)
    assume "\<not> L \<le> 53"
    then have "(2::rat) powi 54 \<le> 2 powi L"
      by (intro power_int_increasing) simp_all
    with lo q(3) show False by simp
  qed
  have at: "double_of q = Num (of_int (round_half_even (q / 2 powi (L - 52))) * 2 powi (L - 52))"
    using double_of_at [OF q(1) lo hi] L0 L53 by simp
  show ?thesis
  proof (cases "L \<le> 52")
    case True
    define k where "k = nat (52 - L)"
    have pk: "(2::rat) powi (L - 52) = 1 / 2 ^ k"
    proof -
      have "(2::rat) powi (L - 52) = 2 powi (- int k)"
        using True by (simp add: k_def)
      then show ?thesis
        by (simp add: power_int_minus_divide)
    qed
    have "q / 2 powi (L - 52) = of_int (n * 2 ^ k)"
      by (simp add: pk q_def)
    then have "round_half_even (q / 2 powi (L - 52)) = n * 2 ^ k"
      by (simp only: round_half_even_int)
    then show ?thesis
      using at by (simp add: pk q_def)
  next
    case False
    with L53 have L: "L = 53" by simp
    have "2 ^ 53 \<le> q"
      using lo by (simp add: L)
    with q(3) have qe: "q = 2 ^ 53" by simp
    have "q / 2 powi (L - 52) = of_int (2 ^ 52)"
      by (simp add: L qe)
    then have "round_half_even (q / 2 powi (L - 52)) = 2 ^ 52"
      by (simp only: round_half_even_int)
    then show ?thesis
      using at by (simp add: L qe q_def [symmetric])
  qed
qed


lemma double_of_quotient:
  assumes a: "0 \<le> a" "a \<le> 2 ^ 53" and b: "1 \<le> b" "b \<le> 2 ^ 53"
  shows "\<exists>v. double_of (of_int a / of_int b) = Num v \<and> \<lfloor>v\<rfloor> = a div b
           \<and> \<lceil>v\<rceil> = \<lceil>rat_of_int a / of_int b\<rceil>"
proof (cases "b dvd a")
  case True
  then obtain n where n: "a = b * n" ..
  have n0: "0 \<le> n"
    using a(1) b(1) n by (simp add: zero_le_mult_iff)
  have "n \<le> b * n"
    using b(1) n0 by (simp add: mult_le_cancel_right1)
  then have n53: "n \<le> 2 ^ 53"
    using a(2) n by simp
  have q: "rat_of_int a / of_int b = of_int n"
    using b(1) n by simp
  have "a div b = n"
    using b(1) n by simp
  then show ?thesis
    unfolding q double_of_int [OF n0 n53] by simp
next
  case False
  define n where "n = a div b"
  define r where "r = a mod b"
  define q where "q = rat_of_int a / of_int b"
  have "0 \<le> a mod b" and "a mod b < b" and "a mod b \<noteq> 0"
    using False b(1) by (simp_all add: dvd_eq_mod_eq_0)
  then have r: "1 \<le> r" "r < b"
    unfolding r_def by simp_all
  have ab: "a = n * b + r"
    by (simp add: n_def r_def)
  have apos: "0 < a"
    using False a(1) by (cases "a = 0") simp_all
  have b2: "2 \<le> b"
    using r by simp
  have qpos: "0 < q"
    using apos b(1) by (simp add: q_def)
  have qb: "q * of_int b = of_int a"
    using b(1) by (simp add: q_def)
  have qn: "q = of_int n + of_int r / of_int b"
    using b(1) by (simp add: q_def ab add_divide_distrib)
  have nq: "of_int n < q" and qn1: "q < of_int n + 1"
    using r b(1) by (simp_all add: qn)
  define L where "L = ilog2 q"
  have lo: "2 powi L \<le> q" and hi: "q < 2 powi (L + 1)"
    using ilog2_bounds [OF qpos] by (simp_all add: L_def)
  have q52: "q < 2 ^ 52"
  proof -
    have "a \<noteq> 2 ^ 53 \<or> b \<noteq> 2"
      using False by auto
    then have "a < 2 ^ 52 * b"
      using a(2) b2 by auto
    then have "rat_of_int a < of_int (2 ^ 52 * b)"
      by (simp only: of_int_less_iff)
    then show ?thesis
      using b(1) by (simp add: q_def pos_divide_less_eq)
  qed
  have L51: "L \<le> 51"
  proof (rule ccontr)
    assume "\<not> L \<le> 51"
    then have "(2::rat) powi 52 \<le> 2 powi L"
      by (intro power_int_increasing) simp_all
    with lo q52 show False by simp
  qed
  have Llow: "- 54 \<le> L"
  proof (rule ccontr)
    assume "\<not> - 54 \<le> L"
    then have "(2::rat) powi (L + 1) \<le> 2 powi (- 53)"
      by (intro power_int_increasing) simp_all
    with hi have "q < 2 powi (- 53)" by simp
    then have "q * 2 ^ 53 < 1"
      by (simp add: power_int_minus_divide pos_less_divide_eq)
    moreover have "rat_of_int b \<le> of_int (2 ^ 53)"
      using b(2) by (simp only: of_int_le_iff)
    then have "q * of_int b \<le> q * 2 ^ 53"
      using qpos by (intro mult_left_mono) simp_all
    moreover have "(1::rat) \<le> of_int a"
      using apos by simp
    ultimately show False
      using qb by simp
  qed
  define s where "s = nat (52 - L)"
  define P where "P = (2::rat) ^ s"
  have s1: "1 \<le> s"
    using L51 by (simp add: s_def)
  have Ppos: "0 < P"
    by (simp add: P_def)
  have pL: "(2::rat) powi (L - 52) = 1 / P"
  proof -
    have "(2::rat) powi (L - 52) = 2 powi (- int s)"
      using L51 by (simp add: s_def)
    then show ?thesis
      by (simp add: power_int_minus_divide P_def)
  qed
  have PL: "2 * P * 2 powi L = 2 ^ 53"
  proof -
    have "P = 2 powi (52 - L)"
      using L51 by (simp add: P_def s_def power_int_nonneg_exp)
    then have "2 * P * 2 powi L = (2::rat) powi 1 * 2 powi (52 - L) * 2 powi L"
      by simp
    also have "\<dots> = 2 powi (1 + (52 - L) + L)"
      by (subst power_int_add, simp)+ simp
    finally show ?thesis by simp
  qed
  define x where "x = q * P"
  define m where "m = round_half_even x"
  define v where "v = rat_of_int m / P"
  have dv: "double_of q = Num v"
    using double_of_at [OF qpos lo hi] Llow L51
    by (simp add: pL v_def m_def x_def)
  have near: "\<bar>of_int m - x\<bar> \<le> 1 / 2"
    unfolding m_def by (rule round_half_even_near)
  have bP: "of_int b \<le> 2 * P"
  proof -
    have "of_int b * 2 powi L \<le> of_int b * q"
      using lo b(1) by (intro mult_left_mono) simp_all
    also have "\<dots> = of_int a"
      using qb by (simp add: mult.commute)
    also have "\<dots> \<le> of_int (2 ^ 53)"
      using a(2) by (simp only: of_int_le_iff)
    also have "\<dots> = 2 * P * 2 powi L"
      using PL by simp
    finally show ?thesis
      by simp
  qed
  have a53: "of_int b = 2 * P \<Longrightarrow> a = 2 ^ 53"
  proof -
    assume e: "of_int b = 2 * P"
    have "2 * P * 2 powi L \<le> of_int b * q"
      unfolding e using lo Ppos by (intro mult_left_mono) simp_all
    then have "rat_of_int (2 ^ 53) \<le> of_int a"
      using qb PL by (simp add: mult.commute)
    then have "2 ^ 53 \<le> a"
      by (simp only: of_int_le_iff)
    with a(2) show ?thesis by simp
  qed
  have beven: "of_int b = 2 * P \<Longrightarrow> even b"
  proof -
    assume e: "of_int b = 2 * P"
    have "rat_of_int b = of_int (2 * 2 ^ s)"
      by (simp add: e P_def)
    then have "b = 2 * 2 ^ s"
      by (simp only: of_int_eq_iff)
    then show ?thesis by simp
  qed
  have up: "v < of_int n + 1"
  proof (rule ccontr)
    assume "\<not> v < of_int n + 1"
    then have "(of_int n + 1) * P \<le> of_int m"
      using Ppos by (simp add: v_def not_less pos_le_divide_eq)
    with near have "(of_int n + 1) * P - x \<le> 1 / 2"
      by linarith
    then have "(of_int n + 1 - q) * P \<le> 1 / 2"
      by (simp add: x_def algebra_simps)
    moreover have "of_int n + 1 - q = of_int (b - r) / of_int b"
      using b(1) by (simp add: qn field_simps)
    ultimately have "of_int (b - r) / of_int b * P \<le> 1 / 2"
      by simp
    then have t: "2 * P * of_int (b - r) \<le> of_int b"
      using b(1) by (simp add: field_simps)
    have "2 * P * 1 \<le> 2 * P * of_int (b - r)"
      using r Ppos by (intro mult_left_mono) simp_all
    then have "2 * P \<le> 2 * P * of_int (b - r)"
      by (simp only: mult_1_right)
    with t bP have e: "of_int b = 2 * P" and "2 * P * of_int (b - r) = 2 * P"
      by linarith+
    then have "rat_of_int (b - r) = 1"
      using Ppos by simp
    then have "b - r = 1"
      by (simp only: of_int_eq_1_iff)
    then have "a = (n + 1) * b - 1"
      using ab by (simp add: algebra_simps)
    then have "odd a"
      using beven [OF e] by simp
    then show False
      using a53 [OF e] by simp
  qed
  have low: "of_int n < v"
  proof (rule ccontr)
    assume "\<not> of_int n < v"
    then have "of_int m \<le> of_int n * P"
      using Ppos by (simp add: v_def not_less pos_divide_le_eq)
    with near have "x - of_int n * P \<le> 1 / 2"
      by linarith
    then have "(q - of_int n) * P \<le> 1 / 2"
      by (simp add: x_def algebra_simps)
    moreover have "q - of_int n = of_int r / of_int b"
      by (simp add: qn)
    ultimately have "of_int r / of_int b * P \<le> 1 / 2"
      by simp
    then have t: "2 * P * of_int r \<le> of_int b"
      using b(1) by (simp add: field_simps)
    have "2 * P * 1 \<le> 2 * P * of_int r"
      using r Ppos by (intro mult_left_mono) simp_all
    then have "2 * P \<le> 2 * P * of_int r"
      by (simp only: mult_1_right)
    with t bP have e: "of_int b = 2 * P" and "2 * P * of_int r = 2 * P"
      by linarith+
    then have "rat_of_int r = 1"
      using Ppos by simp
    then have "r = 1"
      by (simp only: of_int_eq_1_iff)
    then have "a = n * b + 1"
      using ab by simp
    then have "odd a"
      using beven [OF e] by simp
    then show False
      using a53 [OF e] by simp
  qed
  have "\<lfloor>v\<rfloor> = n"
    using low up by (intro floor_unique) simp_all
  moreover have "\<lceil>v\<rceil> = n + 1"
    using low up by (intro ceiling_unique) simp_all
  moreover have "\<lceil>q\<rceil> = n + 1"
    using nq qn1 by (intro ceiling_unique) simp_all
  ultimately show ?thesis
    using dv by (simp add: q_def [symmetric] n_def)
qed

lemma round_half_even_half:
  "round_half_even (of_int k + 1 / 2) = (if even k then k else k + 1)"
proof -
  have "\<lfloor>rat_of_int k + 1 / 2\<rfloor> = k"
    by (intro floor_unique) simp_all
  then show ?thesis
    by (simp add: round_half_even_def)
qed

lemma double_of_2_53_3: "double_of (2 ^ 53 + 3) = Num (2 ^ 53 + 4)"
proof -
  have "double_of (2 ^ 53 + 3)
      = Num (of_int (round_half_even ((2 ^ 53 + 3) / 2 powi (53 - 52))) * 2 powi (53 - 52))"
    by (rule double_of_at) simp_all
  moreover have "((2::rat) ^ 53 + 3) / 2 = of_int (2 ^ 52 + 1) + 1 / 2"
    by simp
  then have "round_half_even ((2 ^ 53 + 3) / 2) = 2 ^ 52 + 2"
    by (simp only: round_half_even_half) simp
  ultimately show ?thesis
    by simp
qed

lemma double_of_numeral [simp]:
  "(numeral k :: int) \<le> 2 ^ 53 \<Longrightarrow> double_of (numeral k) = Num (numeral k)"
  using double_of_int [of "numeral k"] by simp

lemma double_of_0 [simp]: "double_of 0 = Num 0"
  by (simp add: double_of_def)

lemma double_of_1 [simp]: "double_of 1 = Num 1"
  using double_of_int [of 1] by simp

lemma double_of_even_above_2_53:
  assumes "2 ^ 52 \<le> k" and "k < 2 ^ 53"
  shows "double_of (of_int (2 * k)) = Num (of_int (2 * k))"
proof -
  have "rat_of_int (2 ^ 52) \<le> of_int k" and "rat_of_int k < of_int (2 ^ 53)"
    using assms by (simp_all only: of_int_le_iff of_int_less_iff)
  then have k: "(2::rat) ^ 52 \<le> of_int k" "rat_of_int k < 2 ^ 53"
    by simp_all
  have "double_of (of_int (2 * k))
      = Num (of_int (round_half_even (of_int (2 * k) / 2 powi (53 - 52))) * 2 powi (53 - 52))"
    using k by (intro double_of_at) simp_all
  moreover have "rat_of_int (2 * k) / 2 powi (53 - 52) = of_int k"
    by simp
  ultimately show ?thesis
    by (simp only: round_half_even_int) simp
qed

lemma js_lt_Num [simp]: "js_lt (Num a) (Num b) \<longleftrightarrow> a < b"
  by (simp add: js_lt_def)

lemma js_gt_Num [simp]: "js_gt (Num a) (Num b) \<longleftrightarrow> b < a"
  by (simp add: js_gt_def)

section \<open>Results about the pagination envelope\<close>

text \<open>
  The three numbers of a request whose offset lies beyond the integers that a double
  holds exactly.
\<close>

lemma double_of_near_2_53:
  "double_of 9007199254740994 = Num 9007199254740994"
  "double_of 9007199254740995 = Num 9007199254740996"
  "double_of 9007199254740996 = Num 9007199254740996"
proof -
  show "double_of 9007199254740994 = Num 9007199254740994"
    using double_of_even_above_2_53 [of 4503599627370497] by simp
  show "double_of 9007199254740996 = Num 9007199254740996"
    using double_of_even_above_2_53 [of 4503599627370498] by simp
  show "double_of 9007199254740995 = Num 9007199254740996"
    using double_of_2_53_3 by simp
qed

text \<open>Rounding a quotient of integers, by integer division.\<close>

lemma round_half_even_quotient:
  assumes "0 < b"
  shows "round_half_even (of_int a / of_int b) =
           (if 2 * (a mod b) < b then a div b
            else if b < 2 * (a mod b) then a div b + 1
            else if even (a div b) then a div b else a div b + 1)"
proof -
  have f: "\<lfloor>rat_of_int a / of_int b\<rfloor> = a div b"
    by (simp add: floor_divide_of_int_eq)
  have "rat_of_int a = of_int (a div b) * of_int b + of_int (a mod b)"
    by (simp flip: of_int_mult of_int_add)
  then have r: "rat_of_int a / of_int b - of_int (a div b) = of_int (a mod b) / of_int b"
    using assms by (simp add: field_simps)
  have c1: "rat_of_int (a mod b) / of_int b < 1 / 2 \<longleftrightarrow> 2 * (a mod b) < b"
  proof -
    have "rat_of_int (a mod b) / of_int b < 1 / 2 \<longleftrightarrow> rat_of_int (2 * (a mod b)) < of_int b"
      using assms by (simp add: field_simps)
    then show ?thesis by (simp only: of_int_less_iff)
  qed
  have c2: "1 / 2 < rat_of_int (a mod b) / of_int b \<longleftrightarrow> b < 2 * (a mod b)"
  proof -
    have "1 / 2 < rat_of_int (a mod b) / of_int b \<longleftrightarrow> rat_of_int b < of_int (2 * (a mod b))"
      using assms by (simp add: field_simps)
    then show ?thesis by (simp only: of_int_less_iff)
  qed
  show ?thesis
    unfolding round_half_even_def Let_def f r c1 c2 by simp
qed

text \<open>
  The quotient of the doubles nearest to 0.9 and to 0.1 is a little less than 9, and
  rounds to 9.
\<close>

lemma double_of_quotient_near_9:
  "double_of (32425917317067572 / 3602879701896397) = Num 9"
proof -
  let ?q = "32425917317067572 / 3602879701896397 :: rat"
  have at: "double_of ?q = Num (of_int (round_half_even (?q / 2 powi (3 - 52))) * 2 powi (3 - 52))"
    by (rule double_of_at) simp_all
  have "?q / 2 powi (3 - 52) =
          rat_of_int (32425917317067572 * 2 ^ 49) / of_int 3602879701896397"
    by (simp add: power_int_minus_divide)
  then have "round_half_even (?q / 2 powi (3 - 52)) = 9 * 2 ^ 49"
    by (simp only: round_half_even_quotient) simp
  then show ?thesis
    unfolding at by (simp add: power_int_minus_divide)
qed

text \<open>
  Claim C6, as the code has it. For integers total, limit and offset with
  \<open>0 \<le> total \<le> 2^53\<close>, \<open>limit > 0\<close>, \<open>offset \<ge> 0\<close> and
  \<open>offset + limit \<le> 2^53\<close>, the envelope has currentPage = floor(offset/limit) + 1,
  totalPages = ceil(total/limit), hasMore = (offset + limit < total) and
  hasPrevious = (offset > 0); a total of 0 gives totalPages = 0 and hasMore = false.
\<close>

theorem buildPagination_envelope:
  fixes tot lmt ofs :: int
  assumes "0 \<le> tot" and "tot \<le> 2 ^ 53" and "0 < lmt" and "0 \<le> ofs"
    and "ofs + lmt \<le> 2 ^ 53"
  shows "(let p = buildPagination (Num (of_int tot)) (Num (of_int lmt)) (Num (of_int ofs)) in
           currentPage p = Num (of_int (\<lfloor>rat_of_int ofs / of_int lmt\<rfloor> + 1)) \<and>
           totalPages p = Num (of_int \<lceil>rat_of_int tot / of_int lmt\<rceil>) \<and>
           (hasMore p \<longleftrightarrow> ofs + lmt < tot) \<and>
           (hasPrevious p \<longleftrightarrow> 0 < ofs) \<and>
           (tot = 0 \<longrightarrow> totalPages p = Num 0 \<and> \<not> hasMore p))"
proof -
  have l: "1 \<le> lmt" "lmt \<le> 2 ^ 53" and o: "ofs \<le> 2 ^ 53"
    using assms by simp_all
  obtain v where v: "double_of (of_int ofs / of_int lmt) = Num v" "\<lfloor>v\<rfloor> = ofs div lmt"
    using double_of_quotient [OF assms(4) o l] by blast
  obtain u where u: "double_of (of_int tot / of_int lmt) = Num u"
    "\<lceil>u\<rceil> = \<lceil>rat_of_int tot / of_int lmt\<rceil>"
    using double_of_quotient [OF assms(1,2) l] by blast
  have "ofs div lmt \<le> ofs"
    using assms(4) int_div_le_self [of ofs lmt] by (cases "ofs = 0") simp_all
  then have page: "0 \<le> ofs div lmt + 1" "ofs div lmt + 1 \<le> 2 ^ 53"
    using assms(3,4,5) by (simp_all add: pos_imp_zdiv_nonneg_iff)
  have cur: "js_add (Math_floor (js_div (Num (of_int ofs)) (Num (of_int lmt)))) (Num 1) =
               Num (of_int (ofs div lmt + 1))"
    using double_of_int [OF page] assms(3) by (simp add: v)
  have tp: "Math_ceil (js_div (Num (of_int tot)) (Num (of_int lmt))) =
              Num (of_int \<lceil>rat_of_int tot / of_int lmt\<rceil>)"
    using assms(3) by (simp add: u)
  have "0 \<le> ofs + lmt"
    using assms(3,4) by simp
  then have sum: "js_add (Num (of_int ofs)) (Num (of_int lmt)) = Num (of_int (ofs + lmt))"
    using double_of_int [OF _ assms(5)] by simp
  have more: "js_lt (js_add (Num (of_int ofs)) (Num (of_int lmt))) (Num (of_int tot)) \<longleftrightarrow>
              ofs + lmt < tot"
    unfolding sum js_lt_Num by (simp only: of_int_less_iff)
  have prev: "js_gt (Num (rat_of_int ofs)) (Num 0) \<longleftrightarrow> 0 < ofs"
    by simp
  define p where "p = buildPagination (Num (of_int tot)) (Num (of_int lmt)) (Num (of_int ofs))"
  have c1: "currentPage p = Num (of_int (\<lfloor>rat_of_int ofs / of_int lmt\<rfloor> + 1))"
    unfolding p_def buildPagination_def Let_def cur by (simp add: floor_divide_of_int_eq)
  have c2: "totalPages p = Num (of_int \<lceil>rat_of_int tot / of_int lmt\<rceil>)"
    unfolding p_def buildPagination_def Let_def tp by simp
  have c3: "hasMore p \<longleftrightarrow> ofs + lmt < tot"
    unfolding p_def buildPagination_def Let_def using more by simp
  have c4: "hasPrevious p \<longleftrightarrow> 0 < ofs"
    unfolding p_def buildPagination_def Let_def using prev by simp
  have c5: "tot = 0 \<longrightarrow> totalPages p = Num 0 \<and> \<not> hasMore p"
    using c2 c3 assms(3,4) by simp
  show ?thesis
    unfolding Let_def p_def [symmetric] using c1 c2 c3 c4 c5 by blast
qed

text \<open>
  The envelope for a total of 95, a limit of 20 and an offset of 40: page 3 of 5, with
  more pages and a previous one.
\<close>

theorem buildPagination_envelope_witness:
  "(0::int) \<le> 95 \<and> (95::int) \<le> 2 ^ 53 \<and> (0::int) < 20 \<and> (0::int) \<le> 40 \<and>
   (40::int) + 20 \<le> 2 ^ 53 \<and>
   currentPage (buildPagination (Num 95) (Num 20) (Num 40)) = Num 3 \<and>
   totalPages (buildPagination (Num 95) (Num 20) (Num 40)) = Num 5 \<and>
   hasMore (buildPagination (Num 95) (Num 20) (Num 40)) \<and>
   hasPrevious (buildPagination (Num 95) (Num 20) (Num 40))"
proof -
  have c: "\<lceil>rat_of_int 95 / rat_of_int 20\<rceil> = 5"
    unfolding ceiling_divide_eq_div by simp
  have f: "\<lfloor>rat_of_int 40 / rat_of_int 20\<rfloor> = 2"
    unfolding floor_divide_of_int_eq by simp
  show ?thesis
    using buildPagination_envelope [of 95 20 40] c f by (simp add: Let_def)
qed

text \<open>
  The claim as stated fails beyond the integers that a double holds exactly, and for
  numbers that are not integers. With a total of \<open>2^53 + 4\<close>, a limit of 1 and an offset
  of \<open>2^53 + 2\<close>, offset + limit is less than the total and yet hasMore is false, and
  currentPage is \<open>2^53 + 4\<close> where floor(offset/limit) + 1 is \<open>2^53 + 3\<close>. With the
  doubles nearest to 0.1 and 0.9 as limit and offset, currentPage is 10 where
  floor(offset/limit) + 1 is 9.
\<close>

theorem buildPagination_inexact:
  "\<not> hasMore (buildPagination (Num 9007199254740996) (Num 1) (Num 9007199254740994)) \<and>
   (9007199254740994 + 1 < (9007199254740996::rat)) \<and>
   currentPage (buildPagination (Num 9007199254740996) (Num 1) (Num 9007199254740994)) =
     Num 9007199254740996 \<and>
   \<lfloor>9007199254740994 / (1::rat)\<rfloor> + 1 = 9007199254740995 \<and>
   currentPage (buildPagination (Num 0) (Num (3602879701896397 / 36028797018963968))
                  (Num (8106479329266893 / 9007199254740992))) = Num 10 \<and>
   \<lfloor>(8106479329266893 / 9007199254740992) / (3602879701896397 / 36028797018963968 :: rat)\<rfloor> + 1 = 9"
proof -
  have q: "(8106479329266893 / 9007199254740992) / (3602879701896397 / 36028797018963968 :: rat) =
           32425917317067572 / 3602879701896397"
    by simp
  have d: "js_div (Num (8106479329266893 / 9007199254740992))
             (Num (3602879701896397 / 36028797018963968)) = Num 9"
    unfolding js_div.simps q double_of_quotient_near_9 by simp
  have fl: "\<lfloor>32425917317067572 / 3602879701896397 :: rat\<rfloor> = 8"
    by (intro floor_unique) simp_all
  have a: "currentPage (buildPagination (Num 0) (Num (3602879701896397 / 36028797018963968))
                  (Num (8106479329266893 / 9007199254740992))) = Num 10"
    unfolding buildPagination_def Let_def d by simp
  have b: "\<not> hasMore (buildPagination (Num 9007199254740996) (Num 1) (Num 9007199254740994))"
    "currentPage (buildPagination (Num 9007199254740996) (Num 1) (Num 9007199254740994)) =
       Num 9007199254740996"
    by (simp_all add: buildPagination_def double_of_near_2_53)
  show ?thesis
    using a b fl unfolding q by simp
qed

section \<open>Results about the conflict detector\<close>

lemma executeQuery_works:
  "call_works 0 w \<Longrightarrow>
   executeQuery q w =
     (case q (dat_ban w, auto_increment w) of
        None \<Rightarrow> (Failed, log_line DatabaseQueryError (w\<lparr>driver := tl (driver w)\<rparr>))
      | Some (d, rows, counter) \<Rightarrow>
          (Succeeded d, w\<lparr>driver := tl (driver w), dat_ban := rows, auto_increment := counter\<rparr>))"
  by (auto simp: executeQuery_def call_works_def Let_def split: list.splits call.splits option.splits)

lemma executeQuery_rejects:
  "driver w = Rejects # rest \<Longrightarrow>
   executeQuery q w = (Failed, log_line DatabaseQueryError (w\<lparr>driver := rest\<rparr>))"
  by (simp add: executeQuery_def Let_def)

lemma executeQuery_throws:
  "driver w = Throws # rest \<Longrightarrow> executeQuery q w = (Thrown, w\<lparr>driver := rest\<rparr>)"
  by (simp add: executeQuery_def Let_def)




text \<open>
  Claim C9. When the data-access call fails, by an unsuccessful result or by raising, the
  conflict detector answers false, one line is written to the log, and nothing is raised
  to the caller: the result is a plain answer and the table is untouched.
\<close>

theorem checkDuplicateReservation_fails_open:
  assumes "driver w = c # rest" and "c = Rejects \<or> c = Throws"
  shows "checkDuplicateReservation s d g excludeId w =
           (False, w\<lparr>driver := rest,
                     console := console w @
                       [if c = Rejects then DatabaseQueryError else ErrorCheckingDuplicate]\<rparr>)"
  using assms
  by (auto simp: checkDuplicateReservation_def executeQuery_rejects executeQuery_throws
      log_line_def Let_def)

text \<open>
  A rejected query over a table that holds a matching reservation: the answer is false and
  the log has one line.
\<close>

theorem checkDuplicateReservation_fails_open_witness:
  "driver (example_world [example_row 1 cho_xac_nhan] [Rejects]) = [Rejects] \<and>
   checkDuplicateReservation (Some (JStr (js ''0912345678''))) (Some (JStr (js ''2026-11-03'')))
     (Some (JStr (js ''19:00''))) None
     (example_world [example_row 1 cho_xac_nhan] [Rejects]) =
   (False, (example_world [example_row 1 cho_xac_nhan] [])\<lparr>console := [DatabaseQueryError]\<rparr>)"
  using checkDuplicateReservation_fails_open
          [of "example_world [example_row 1 cho_xac_nhan] [Rejects]" Rejects "[]"
              "Some (JStr (js ''0912345678''))" "Some (JStr (js ''2026-11-03''))"
              "Some (JStr (js ''19:00''))" None]
  by (simp add: example_world_def)

text \<open>
  A value that is \<open>undefined\<close> makes the driver refuse the query: the result is
  unsuccessful, and the detector answers false in the same way.
\<close>

lemma checkDuplicateReservation_undefined_value:
  assumes "call_works 0 w" and "s = None \<or> d = None \<or> g = None"
  shows "checkDuplicateReservation s d g excludeId w =
           (False, w\<lparr>driver := tl (driver w), console := console w @ [DatabaseQueryError]\<rparr>)"
  using assms
  by (auto simp: checkDuplicateReservation_def executeQuery_works count_active_def log_line_def
      Let_def split: option.splits)

section \<open>Results about the validator\<close>

lemmas validator_defs =
  validateReservationData_def and_then_def validate_ten_khach_def validate_sdt_def
  validate_email_def validate_ngay_def validate_gio_def time_passed_def
  validate_so_luong_khach_def validate_ghi_chu_def parseInt_of_def parseInt_def
  num_string_def Date_of_def longer_than_def length_of_def ToNumber_def
  hours_minutes_def name_pattern_def phone_pattern_def email_pattern_def
  isNameChar_def isWhiteSpace_def digit_value_def push_if_def
  trim_def truthy_def js_def js_lt_def js_gt_def js_eq_def js_le_def valueOf_def
  sameDateString_def setHours0_def addDays_def DAY_def Let_def

lemmas example_defs =
  example_request_def example_env_def example_env_behind_utc_def example_dates_def
  example_numbers_def example_decimal_def

lemma example_request_valid: "validateReservationData example_env example_request = Inr []"
  by (simp add: validator_defs example_defs)

text \<open>
  Claim C4 says that the validator accepts a time exactly when it lies between 10:00 and
  21:30. With the example request, whose date is tomorrow, the times \<open>abc\<close>, \<open>20:99\<close>
  and \<open>10:-5\<close> pass the validator without any error, where \<open>22:00\<close> is reported as
  outside the hours; and a time that is the number 1900 makes the validator raise.
\<close>

theorem validateReservationData_accepts_malformed_time:
  "validateReservationData example_env (example_request\<lparr>gio := Some (JStr (js ''abc''))\<rparr>) = Inr [] \<and>
   validateReservationData example_env (example_request\<lparr>gio := Some (JStr (js ''20:99''))\<rparr>) = Inr [] \<and>
   validateReservationData example_env (example_request\<lparr>gio := Some (JStr (js ''10:-5''))\<rparr>) = Inr [] \<and>
   validateReservationData example_env (example_request\<lparr>gio := Some (JStr (js ''22:00''))\<rparr>) =
     Inr [TimeOutsideHours] \<and>
   validateReservationData example_env (example_request\<lparr>gio := Some (JNum (Num 1900))\<rparr>) =
     Inl TypeError"
  by (simp add: validator_defs example_defs)

lemma example_env_behind_utc_days:
  "(clock_now example_env_behind_utc + tz_offset example_env_behind_utc) div DAY = 20759"
  "Date_parse example_env_behind_utc (js ''2026-12-03'') = Some ((20759 + 31) * DAY)"
  "tz_offset example_env_behind_utc < 0"
  by (simp_all add: example_defs DAY_def js_def)

text \<open>
  Claim C5 says that a date before today always gets the past-date error, whatever the
  other fields hold, and that a date more than 30 days after today gets the booking-window
  error. With the clock of the examples on 2026-11-02, the date 2026-11-01 gets the
  past-date error beside a name that is a string, and beside a name that is the number
  12345 the validator raises and the create route answers 500 without an error list. In a
  zone five hours behind UTC, at 20:00 on 2026-11-02, the date 2026-12-03, 31 days after
  today, passes the validator, where in the zone of the examples it gets the
  booking-window error.
\<close>

theorem validateReservationData_misses_date_errors:
  "validateReservationData example_env (example_request\<lparr>ngay := Some (JStr (js ''2026-11-01''))\<rparr>) =
     Inr [DateInPast] \<and>
   validateReservationData example_env
     (example_request\<lparr>ten_khach := Some (JNum (Num 12345)),
                      ngay := Some (JStr (js ''2026-11-01''))\<rparr>) = Inl TypeError \<and>
   post_datban example_env
     (example_request\<lparr>ten_khach := Some (JNum (Num 12345)),
                      ngay := Some (JStr (js ''2026-11-01''))\<rparr>) (example_world [] []) =
     (failure 500 CreateFailed, (example_world [] [])\<lparr>console := [ErrorCreating]\<rparr>) \<and>
   (clock_now example_env_behind_utc + tz_offset example_env_behind_utc) div DAY = 20759 \<and>
   Date_parse example_env_behind_utc (js ''2026-12-03'') = Some ((20759 + 31) * DAY) \<and>
   validateReservationData example_env_behind_utc
     (example_request\<lparr>ngay := Some (JStr (js ''2026-12-03''))\<rparr>) = Inr [] \<and>
   validateReservationData example_env
     (example_request\<lparr>ngay := Some (JStr (js ''2026-12-03''))\<rparr>) = Inr [DateBeyond30Days]"
proof -
  have a: "validateReservationData example_env
     (example_request\<lparr>ten_khach := Some (JNum (Num 12345)),
                      ngay := Some (JStr (js ''2026-11-01''))\<rparr>) = Inl TypeError"
    by (simp add: validator_defs example_defs)
  have b: "validateReservationData example_env
             (example_request\<lparr>ngay := Some (JStr (js ''2026-11-01''))\<rparr>) = Inr [DateInPast]"
    "validateReservationData example_env_behind_utc
       (example_request\<lparr>ngay := Some (JStr (js ''2026-12-03''))\<rparr>) = Inr []"
    "validateReservationData example_env
       (example_request\<lparr>ngay := Some (JStr (js ''2026-12-03''))\<rparr>) = Inr [DateBeyond30Days]"
    by (simp_all add: validator_defs example_defs)
  show ?thesis
    using b example_env_behind_utc_days
    by (simp add: post_datban_def a log_line_def example_world_def)
qed

section \<open>What the validator does report\<close>

lemma set_push_if [simp]: "x \<in> set (push_if b y) \<longleftrightarrow> b \<and> x = y"
  by (auto simp: push_if_def)

lemma and_then_Inr:
  "and_then a b = Inr zs \<longleftrightarrow> (\<exists>xs ys. a = Inr xs \<and> b = Inr ys \<and> zs = xs @ ys)"
  by (auto simp: and_then_def split: sum.splits)

lemma in_validate_ten_khach:
  "validate_ten_khach v = Inr xs \<Longrightarrow> x \<in> set xs \<Longrightarrow>
   x \<in> {NameTooShort, NameTooLong, NameNotLetters}"
  by (auto simp: validate_ten_khach_def split: if_splits option.splits json.splits)

lemma in_validate_sdt:
  "validate_sdt v = Inr xs \<Longrightarrow> x \<in> set xs \<Longrightarrow> x \<in> {PhoneRequired, PhoneNotDigits}"
  by (auto simp: validate_sdt_def Let_def split: if_splits option.splits json.splits)

lemma in_validate_email:
  "validate_email e v = Inr xs \<Longrightarrow> x \<in> set xs \<Longrightarrow> x \<in> {EmailFormat, EmailTooLong}"
  by (auto simp: validate_email_def split: if_splits option.splits sum.splits)

lemma in_validate_ngay:
  "validate_ngay e v = Inr xs \<Longrightarrow> x \<in> set xs \<Longrightarrow>
   x \<in> {DateRequired, DateInPast, DateBeyond30Days}"
  by (auto simp: validate_ngay_def Let_def split: if_splits option.splits sum.splits)

lemma in_time_passed:
  "time_passed e n g = Inr xs \<Longrightarrow> x \<in> set xs \<Longrightarrow> x = TimeAlreadyPassed"
  by (auto simp: time_passed_def Let_def split: if_splits option.splits sum.splits)

lemma in_validate_gio:
  "validate_gio e n v = Inr xs \<Longrightarrow> x \<in> set xs \<Longrightarrow>
   x \<in> {TimeRequired, TimeOutsideHours, TimeAlreadyPassed}"
  by (auto simp: validate_gio_def Let_def dest: in_time_passed
      split: if_splits option.splits json.splits sum.splits prod.splits)

lemma in_validate_so_luong_khach:
  "validate_so_luong_khach e v = Inr xs \<Longrightarrow> x \<in> set xs \<Longrightarrow>
   x \<in> {GuestsRequired, GuestsOutOfRange}"
  by (auto simp: validate_so_luong_khach_def split: sum.splits)

lemma in_validate_ghi_chu:
  "validate_ghi_chu e v = Inr xs \<Longrightarrow> x \<in> set xs \<Longrightarrow> x = NoteTooLong"
  by (auto simp: validate_ghi_chu_def split: if_splits option.splits sum.splits)

lemma date_errors_of:
  assumes "validateReservationData e d = Inr errs"
  shows "\<exists>xs. validate_ngay e (ngay d) = Inr xs \<and>
              (DateInPast \<in> set errs \<longleftrightarrow> DateInPast \<in> set xs) \<and>
              (DateBeyond30Days \<in> set errs \<longleftrightarrow> DateBeyond30Days \<in> set xs)"
proof -
  from assms obtain a b c n g s h where parts:
    "validate_ten_khach (ten_khach d) = Inr a" "validate_sdt (sdt d) = Inr b"
    "validate_email e (email d) = Inr c" "validate_ngay e (ngay d) = Inr n"
    "validate_gio e (ngay d) (gio d) = Inr g"
    "validate_so_luong_khach e (so_luong_khach d) = Inr s"
    "validate_ghi_chu e (ghi_chu d) = Inr h" and errs: "errs = a @ b @ c @ n @ g @ s @ h"
    unfolding validateReservationData_def and_then_Inr by auto
  have "x \<in> set errs \<longleftrightarrow> x \<in> set n" if "x = DateInPast \<or> x = DateBeyond30Days" for x
    using that in_validate_ten_khach [OF parts(1), of x] in_validate_sdt [OF parts(2), of x]
      in_validate_email [OF parts(3), of x] in_validate_gio [OF parts(5), of x]
      in_validate_so_luong_khach [OF parts(6), of x] in_validate_ghi_chu [OF parts(7), of x]
    unfolding errs by auto
  then show ?thesis
    using parts(4) by simp
qed

lemma time_errors_of:
  assumes "validateReservationData e d = Inr errs"
  shows "\<exists>xs. validate_gio e (ngay d) (gio d) = Inr xs \<and>
              (TimeOutsideHours \<in> set errs \<longleftrightarrow> TimeOutsideHours \<in> set xs) \<and>
              (TimeAlreadyPassed \<in> set errs \<longleftrightarrow> TimeAlreadyPassed \<in> set xs)"
proof -
  from assms obtain a b c n g s h where parts:
    "validate_ten_khach (ten_khach d) = Inr a" "validate_sdt (sdt d) = Inr b"
    "validate_email e (email d) = Inr c" "validate_ngay e (ngay d) = Inr n"
    "validate_gio e (ngay d) (gio d) = Inr g"
    "validate_so_luong_khach e (so_luong_khach d) = Inr s"
    "validate_ghi_chu e (ghi_chu d) = Inr h" and errs: "errs = a @ b @ c @ n @ g @ s @ h"
    unfolding validateReservationData_def and_then_Inr by auto
  have "x \<in> set errs \<longleftrightarrow> x \<in> set g" if "x = TimeOutsideHours \<or> x = TimeAlreadyPassed" for x
    using that in_validate_ten_khach [OF parts(1), of x] in_validate_sdt [OF parts(2), of x]
      in_validate_email [OF parts(3), of x] in_validate_ngay [OF parts(4), of x]
      in_validate_so_luong_khach [OF parts(6), of x] in_validate_ghi_chu [OF parts(7), of x]
    unfolding errs by auto
  then show ?thesis
    using parts(5) by simp
qed

lemma DAY_pos: "0 < DAY"
  by (simp add: DAY_def)

lemma int_less_mult_iff_div_less:
  fixes a q D :: int
  assumes "0 < D"
  shows "a < D * q \<longleftrightarrow> a div D < q"
proof
  assume lt: "a < D * q"
  show "a div D < q"
  proof (rule ccontr)
    assume "\<not> a div D < q"
    then have "q \<le> a div D" by simp
    then have "D * q \<le> D * (a div D)"
      using assms by (simp add: mult_left_mono)
    also have "\<dots> \<le> a"
    proof -
      have "a = D * (a div D) + a mod D" by simp
      moreover have "0 \<le> a mod D" using assms by simp
      ultimately show ?thesis by linarith
    qed
    finally show False using lt by simp
  qed
next
  assume "a div D < q"
  then have "a div D + 1 \<le> q" by simp
  then have "D * (a div D + 1) \<le> D * q"
    using assms by (simp add: mult_left_mono)
  moreover have "a < D * (a div D + 1)"
  proof -
    have "a = D * (a div D) + a mod D" by simp
    moreover have "a mod D < D" using assms by simp
    ultimately show ?thesis unfolding distrib_left by linarith
  qed
  ultimately show "a < D * q" by simp
qed

lemma before_start_of_day:
  "t < setHours0 e now \<longleftrightarrow> (t + tz_offset e) div DAY < (now + tz_offset e) div DAY"
proof -
  have "setHours0 e now + tz_offset e = DAY * ((now + tz_offset e) div DAY)"
    by (simp add: setHours0_def minus_mod_eq_mult_div algebra_simps)
  then have "t < setHours0 e now \<longleftrightarrow> t + tz_offset e < DAY * ((now + tz_offset e) div DAY)"
    by linarith
  then show ?thesis
    using int_less_mult_iff_div_less [OF DAY_pos] by simp
qed

lemma beyond_30_days:
  assumes "(now + tz_offset e) div DAY + 30 < (t + tz_offset e) div DAY"
  shows "addDays 30 now < t"
proof (rule ccontr)
  assume "\<not> addDays 30 now < t"
  then have "t + tz_offset e \<le> (now + tz_offset e) + 30 * DAY"
    by (simp add: addDays_def)
  then have "(t + tz_offset e) div DAY \<le> ((now + tz_offset e) + 30 * DAY) div DAY"
    using DAY_pos by (rule zdiv_mono1)
  also have "\<dots> = (now + tz_offset e) div DAY + 30"
    using DAY_pos by simp
  finally show False using assms by simp
qed

lemma utc_midnight_local_day:
  assumes "0 \<le> tz_offset e" and "tz_offset e < DAY"
  shows "(k * DAY + tz_offset e) div DAY = k"
  using assms DAY_pos by (simp add: div_pos_pos_trivial)

text \<open>
  Where the date rules hold. For a request on which the validator returns
  its list, with a date that is a string read as midnight UTC of the day numbered \<open>k\<close>, in
  a zone at or ahead of UTC: the past-date error is reported exactly when that day is
  before today's local day, and the booking-window error whenever it is more than 30 days
  after it.
\<close>

lemma validator_date_rules_ahead_of_utc:
  assumes "validateReservationData e d = Inr errs"
    and "ngay d = Some (JStr n)" and "n \<noteq> []" and "Date_parse e n = Some (k * DAY)"
    and "0 \<le> tz_offset e" and "tz_offset e < DAY"
  shows "(DateInPast \<in> set errs \<longleftrightarrow> k < (clock_now e + tz_offset e) div DAY) \<and>
         ((clock_now e + tz_offset e) div DAY + 30 < k \<longrightarrow> DateBeyond30Days \<in> set errs)"
proof -
  obtain xs where xs: "validate_ngay e (ngay d) = Inr xs"
    "DateInPast \<in> set errs \<longleftrightarrow> DateInPast \<in> set xs"
    "DateBeyond30Days \<in> set errs \<longleftrightarrow> DateBeyond30Days \<in> set xs"
    using date_errors_of [OF assms(1)] by blast
  have day: "(k * DAY + tz_offset e) div DAY = k"
    using utc_midnight_local_day [OF assms(5,6)] .
  define t where "t = k * DAY"
  have parsed: "Date_parse e n = Some t"
    using assms(4) by (simp add: t_def)
  have v: "xs = push_if (t < setHours0 e (clock_now e)) DateInPast @
                push_if (addDays 30 (clock_now e) < t) DateBeyond30Days"
    using xs(1) assms(2,3) parsed
    by (simp add: validate_ngay_def truthy_def Date_of_def valueOf_def Let_def)
  show ?thesis
    using beyond_30_days [of "clock_now e" e t] day
    unfolding xs(2,3) v by (simp add: before_start_of_day t_def)
qed

text \<open>
  Where the time rules hold. For a request on which the validator returns
  its list, with a time that is a string whose two parts read as an hour and a minute from
  0 to 59: no window error is reported exactly when the time lies between 10:00 and 21:30;
  and when the date is a string that is today and the date and time together parse, the
  time is reported as passed exactly when that moment is not after the clock.
\<close>

lemma validator_time_rules_well_formed:
  fixes hh mm :: int
  assumes "validateReservationData e d = Inr errs"
    and "gio d = Some (JStr g)" and "g \<noteq> []"
    and "hours_minutes e g = (Num (of_int hh), Num (of_int mm))"
    and "0 \<le> mm" and "mm < 60"
  shows "(TimeOutsideHours \<notin> set errs \<longleftrightarrow> 600 \<le> 60 * hh + mm \<and> 60 * hh + mm \<le> 1290) \<and>
         (\<forall>n t. ngay d = Some (JStr n) \<and> n \<noteq> [] \<and>
                 sameDateString e (Date_parse e n) (Some (clock_now e)) \<and>
                 Date_parse e (n @ [32] @ g) = Some t \<longrightarrow>
                 (TimeAlreadyPassed \<in> set errs \<longleftrightarrow> t \<le> clock_now e))"
proof -
  obtain xs where xs: "validate_gio e (ngay d) (gio d) = Inr xs"
    "TimeOutsideHours \<in> set errs \<longleftrightarrow> TimeOutsideHours \<in> set xs"
    "TimeAlreadyPassed \<in> set errs \<longleftrightarrow> TimeAlreadyPassed \<in> set xs"
    using time_errors_of [OF assms(1)] by blast
  have win: "(hh < 10 \<or> 21 < hh \<or> (hh = 21 \<and> 30 < mm)) \<longleftrightarrow>
             \<not> (600 \<le> 60 * hh + mm \<and> 60 * hh + mm \<le> 1290)"
    using assms(5,6) by presburger
  have a: "rat_of_int hh < 10 \<longleftrightarrow> hh < 10" "10 < rat_of_int hh \<longleftrightarrow> 10 < hh"
    "21 < rat_of_int hh \<longleftrightarrow> 21 < hh" "rat_of_int hh = 21 \<longleftrightarrow> hh = 21"
    "30 < rat_of_int mm \<longleftrightarrow> 30 < mm"
    by (metis of_int_less_iff of_int_numeral of_int_eq_iff)+
  obtain ps where ps: "time_passed e (ngay d) g = Inr ps"
    and xs_eq: "xs = push_if (hh < 10 \<or> 21 < hh \<or> (hh = 21 \<and> 30 < mm)) TimeOutsideHours @ ps"
    using xs(1) assms(2,3,4)
    by (auto simp: validate_gio_def truthy_def Let_def js_eq_def a split: sum.splits)
  have "TimeOutsideHours \<notin> set ps"
    using in_time_passed [OF ps] by auto
  then have c1: "TimeOutsideHours \<notin> set errs \<longleftrightarrow> 600 \<le> 60 * hh + mm \<and> 60 * hh + mm \<le> 1290"
    unfolding xs(2) xs_eq using win by auto
  have c2: "TimeAlreadyPassed \<in> set errs \<longleftrightarrow> t \<le> clock_now e"
    if "ngay d = Some (JStr n)" "n \<noteq> []"
      "sameDateString e (Date_parse e n) (Some (clock_now e))"
      "Date_parse e (n @ [32] @ g) = Some t" for n t
  proof -
    have "ps = push_if (t \<le> clock_now e) TimeAlreadyPassed"
      using ps that
      by (simp add: time_passed_def truthy_def Date_of_def valueOf_def js_le_def js_lt_def
          Let_def not_less)
    then show ?thesis
      unfolding xs(3) xs_eq by auto
  qed
  show ?thesis
    using c1 c2 by blast
qed

section \<open>Results about the create route\<close>

lemma executeQuery_driver: "driver (snd (executeQuery q w)) = tl (driver w)"
  by (auto simp: executeQuery_def Let_def log_line_def split: list.splits call.splits option.splits)

lemma call_works_tl: "call_works (Suc n) w \<Longrightarrow> driver w' = tl (driver w) \<Longrightarrow> call_works n w'"
  by (simp add: call_works_def drop_Suc)



lemma executeQuery_select:
  "fst (executeQuery (select_by_id i) w) \<noteq> Succeeded x \<or>
   x = filter (\<lambda>r. id_datban r = i) (dat_ban w)"
  by (auto simp: executeQuery_def select_by_id_def Let_def split: list.splits call.splits)

lemma executeQuery_select_world:
  "dat_ban (snd (executeQuery (select_by_id i) w)) = dat_ban w \<and>
   auto_increment (snd (executeQuery (select_by_id i) w)) = auto_increment w"
  by (auto simp: executeQuery_def select_by_id_def Let_def log_line_def
      split: list.splits call.splits)

lemma checkDuplicateReservation_world:
  "dat_ban (snd (checkDuplicateReservation s d g x w)) = dat_ban w \<and>
   auto_increment (snd (checkDuplicateReservation s d g x w)) = auto_increment w \<and>
   driver (snd (checkDuplicateReservation s d g x w)) = tl (driver w)"
  by (auto simp: checkDuplicateReservation_def executeQuery_def count_active_def Let_def
      log_line_def split: list.splits call.splits option.splits)

lemma log_line_fields [simp]:
  "dat_ban (log_line l w) = dat_ban w" "auto_increment (log_line l w) = auto_increment w"
  "driver (log_line l w) = driver w"
  by (simp_all add: log_line_def)

lemma js_not_Nil [simp]: "js (c # cs) \<noteq> []"
  by (simp add: js_def)

lemma status_of_names [simp]:
  "status_of (js ''cho_xac_nhan'') = Some cho_xac_nhan"
  "status_of (js ''da_xac_nhan'') = Some da_xac_nhan"
  "status_of (js ''da_huy'') = Some da_huy"
  by (simp_all add: status_of_def js_def)

lemma and_then_Nil: "and_then a b = Inr [] \<longleftrightarrow> a = Inr [] \<and> b = Inr []"
  by (auto simp: and_then_def split: sum.splits)

text \<open>
  What a request that passes the validator holds: a name, a phone and a time that are
  strings, a date that is truthy, and a party size that \<open>parseInt\<close> reads.
\<close>

lemma valid_fields_present:
  assumes "validateReservationData e d = Inr []"
  shows "\<exists>n p g x k. ten_khach d = Some (JStr n) \<and> sdt d = Some (JStr p) \<and>
           gio d = Some (JStr g) \<and> ngay d = Some x \<and> x \<noteq> JNull \<and>
           parseInt_of e (so_luong_khach d) = Inr k"
proof -
  from assms have parts:
    "validate_ten_khach (ten_khach d) = Inr []" "validate_sdt (sdt d) = Inr []"
    "validate_ngay e (ngay d) = Inr []" "validate_gio e (ngay d) (gio d) = Inr []"
    "validate_so_luong_khach e (so_luong_khach d) = Inr []"
    by (simp_all add: validateReservationData_def and_then_Nil)
  have "\<exists>n. ten_khach d = Some (JStr n)"
    using parts(1)
    by (auto simp: validate_ten_khach_def split: if_splits option.splits json.splits)
  moreover have "\<exists>p. sdt d = Some (JStr p)"
    using parts(2)
    by (auto simp: validate_sdt_def split: if_splits option.splits json.splits)
  moreover have "\<exists>g. gio d = Some (JStr g)"
    using parts(4)
    by (auto simp: validate_gio_def split: if_splits option.splits json.splits)
  moreover have "\<exists>x. ngay d = Some x \<and> x \<noteq> JNull"
    using parts(3)
    by (auto simp: validate_ngay_def truthy_def split: if_splits option.splits)
  moreover have "\<exists>k. parseInt_of e (so_luong_khach d) = Inr k"
    using parts(5)
    by (auto simp: validate_so_luong_khach_def split: sum.splits)
  ultimately show ?thesis by blast
qed



lemma bound_values_of:
  assumes "bind_values e d st = Inr v"
  shows "v_ngay v = ngay d \<and> v_gio v = gio d \<and> v_trang_thai v = st \<and>
         trimmed (ten_khach d) = Inr (v_ten_khach v) \<and> trimmed (sdt d) = Inr (v_sdt v) \<and>
         (\<exists>k. v_so_luong_khach v = JNum k)"
  using assms by (auto simp: bind_values_def split: sum.splits)

lemma valid_row_of:
  assumes "validateReservationData e d = Inr []" and "bind_values e d st = Inr v"
    and "status_of_value st = Some t"
  shows "\<exists>r. row_of i v = Some r \<and> id_datban r = i \<and> row_trang_thai r = t \<and>
             Some (row_ngay r) = ngay d \<and> Some (row_gio r) = gio d \<and>
             trimmed (sdt d) = Inr (row_sdt r)"
proof -
  obtain n p g x k where f: "ten_khach d = Some (JStr n)" "sdt d = Some (JStr p)"
    "gio d = Some (JStr g)" "ngay d = Some x" "x \<noteq> JNull"
    using valid_fields_present [OF assms(1)] by blast
  from bound_values_of [OF assms(2)] f assms(3) show ?thesis
    by (auto simp: row_of_def trimmed_def)
qed




lemma post_datban_insert:
  assumes "validateReservationData e d = Inr []"
    and "\<not> fst (checkDuplicateReservation (sdt d) (ngay d) (gio d) None w)"
    and "w1 = snd (checkDuplicateReservation (sdt d) (ngay d) (gio d) None w)"
    and "bind_values e d (JStr (js ''cho_xac_nhan'')) = Inr v"
  shows "post_datban e d w =
           (case executeQuery (insert_row v) w1 of
              (Succeeded insertId, w2) \<Rightarrow>
                (case executeQuery (select_by_id insertId) w2 of
                   (Succeeded found, w3) \<Rightarrow>
                     (\<lparr> code = 201, success = True, message = Created, errors = None,
                         data = first_row found, insert_id = Some insertId \<rparr>, w3)
                 | (_, w3) \<Rightarrow> (failure 500 CreateFailed, log_line ErrorCreating w3))
            | (_, w2) \<Rightarrow> (failure 500 CreateFailed, log_line ErrorCreating w2))"
proof (cases "checkDuplicateReservation (sdt d) (ngay d) (gio d) None w")
  case (Pair dup w')
  then show ?thesis
    using assms by (simp add: post_datban_def)
qed

lemma post_datban_created:
  assumes valid: "validateReservationData e d = Inr []"
    and nodup: "\<not> fst (checkDuplicateReservation (sdt d) (ngay d) (gio d) None w)"
    and bound: "bind_values e d (JStr (js ''cho_xac_nhan'')) = Inr v"
    and c1: "call_works 1 w" and c2: "call_works 2 w" and keys: "keys_ok w"
  shows "\<exists>r. row_of (auto_increment w) v = Some r \<and>
             row_trang_thai r = cho_xac_nhan \<and>
             dat_ban (snd (post_datban e d w)) = dat_ban w @ [r] \<and>
             fst (post_datban e d w) =
               \<lparr> code = 201, success = True, message = Created, errors = None,
                 data = Some r, insert_id = Some (auto_increment w) \<rparr>"
proof -
  define w1 where "w1 = snd (checkDuplicateReservation (sdt d) (ngay d) (gio d) None w)"
  have w1: "dat_ban w1 = dat_ban w" "auto_increment w1 = auto_increment w"
    "driver w1 = tl (driver w)"
    using checkDuplicateReservation_world [of "sdt d" "ngay d" "gio d" None w]
    by (simp_all add: w1_def)
  have "status_of_value (JStr (js ''cho_xac_nhan'')) = Some cho_xac_nhan"
    by (simp add: status_of_value_def)
  then obtain r where r: "row_of (auto_increment w) v = Some r"
    "id_datban r = auto_increment w" "row_trang_thai r = cho_xac_nhan"
    using valid_row_of [OF valid bound, of cho_xac_nhan "auto_increment w"] by blast
  define w2 where "w2 = w1\<lparr>driver := tl (driver w1), dat_ban := dat_ban w @ [r],
                           auto_increment := auto_increment w + 1\<rparr>"
  have cw1: "call_works 0 w1"
    using c1 w1(3) by (simp add: call_works_tl)
  have ins: "executeQuery (insert_row v) w1 = (Succeeded (auto_increment w), w2)"
    using r(1) by (simp add: executeQuery_works [OF cw1] insert_row_def w1 w2_def)
  have cw2: "call_works 0 w2"
    using c2 w1(3) by (simp add: call_works_def w2_def drop_Suc numeral_2_eq_2)
  have "filter (\<lambda>x. id_datban x = auto_increment w) (dat_ban w) = []"
    using keys by (auto simp: keys_ok_def list_all_iff filter_empty_conv)
  moreover have "dat_ban w2 = dat_ban w @ [r]"
    by (simp add: w2_def)
  ultimately have sel: "fst (executeQuery (select_by_id (auto_increment w)) w2) = Succeeded [r]"
    "dat_ban (snd (executeQuery (select_by_id (auto_increment w)) w2)) = dat_ban w @ [r]"
    using r(2) by (simp_all add: executeQuery_works [OF cw2] select_by_id_def)
  obtain res w3 where w3: "executeQuery (select_by_id (auto_increment w)) w2 = (res, w3)"
    by (cases "executeQuery (select_by_id (auto_increment w)) w2")
  have "post_datban e d w =
          (\<lparr> code = 201, success = True, message = Created, errors = None,
              data = Some r, insert_id = Some (auto_increment w) \<rparr>, w3)"
    using sel w3 by (simp add: post_datban_insert [OF valid nodup w1_def bound] ins first_row_def)
  then show ?thesis
    using r sel(2) w3 by simp
qed




lemma example_bound:
  "bind_values example_env example_request (JStr (js ''cho_xac_nhan'')) =
     Inr \<lparr> v_ten_khach = JStr (js ''Nguyen Van A''), v_sdt = JStr (js ''0912345678''),
           v_email = JNull, v_ngay = Some (JStr (js ''2026-11-03'')),
           v_gio = Some (JStr (js ''19:00'')), v_so_luong_khach = JNum (Num 4),
           v_ghi_chu = JNull, v_trang_thai = JStr (js ''cho_xac_nhan'') \<rparr>"
  by (simp add: bind_values_def trimmed_def trim_or_null_def validator_defs example_defs)




text \<open>
  A party size sent as the number \<open>1e21\<close> prints as \<open>1e+21\<close>, of which \<open>parseInt\<close>
  reads the 1: the request passes the validator and a party of 1 is stored.
\<close>

lemma post_datban_party_size_1e21:
  "validateReservationData example_env
     (example_request\<lparr>so_luong_khach := Some (JNum (Num 1000000000000000000000))\<rparr>) = Inr [] \<and>
   fst (post_datban example_env
          (example_request\<lparr>so_luong_khach := Some (JNum (Num 1000000000000000000000))\<rparr>)
          (example_world [] [])) =
     \<lparr> code = 201, success = True, message = Created, errors = None,
       data = Some ((example_row 1 cho_xac_nhan)\<lparr>row_so_luong_khach := JNum (Num 1)\<rparr>),
       insert_id = Some 1 \<rparr>"
proof -
  let ?d = "example_request\<lparr>so_luong_khach := Some (JNum (Num 1000000000000000000000))\<rparr>"
  have valid: "validateReservationData example_env ?d = Inr []"
    by (simp add: validator_defs example_defs)
  have nodup: "\<not> fst (checkDuplicateReservation (sdt ?d) (ngay ?d) (gio ?d) None
                        (example_world [] []))"
    by (simp add: checkDuplicateReservation_def executeQuery_def count_active_def
        example_world_def example_request_def Let_def)
  have bound: "bind_values example_env ?d (JStr (js ''cho_xac_nhan'')) =
     Inr \<lparr> v_ten_khach = JStr (js ''Nguyen Van A''), v_sdt = JStr (js ''0912345678''),
           v_email = JNull, v_ngay = Some (JStr (js ''2026-11-03'')),
           v_gio = Some (JStr (js ''19:00'')), v_so_luong_khach = JNum (Num 1),
           v_ghi_chu = JNull, v_trang_thai = JStr (js ''cho_xac_nhan'') \<rparr>"
    by (simp add: bind_values_def trimmed_def trim_or_null_def validator_defs example_defs)
  have env: "call_works 1 (example_world [] [])" "call_works 2 (example_world [] [])"
    "keys_ok (example_world [] [])" "auto_increment (example_world [] []) = 1"
    by (simp_all add: call_works_def keys_ok_def example_world_def)
  show ?thesis
    using post_datban_created [OF valid nodup bound env(1,2,3)] valid
    by (auto simp: env(4) row_of_def example_row_def status_of_value_def)
qed

section \<open>Results about the status update\<close>

lemma status_of_Some:
  "status_of s = Some st \<Longrightarrow>
   truthy (Some (JStr s)) \<and>
   JStr s \<in> set [JStr (js ''cho_xac_nhan''), JStr (js ''da_xac_nhan''), JStr (js ''da_huy'')]"
  by (auto simp: status_of_def truthy_def split: if_splits)

lemma select_found:
  assumes "call_works 0 w"
  shows "executeQuery (select_by_id i) w =
           (Succeeded (filter (\<lambda>r. id_datban r = i) (dat_ban w)), w\<lparr>driver := tl (driver w)\<rparr>)"
  using assms by (simp add: executeQuery_works select_by_id_def)

lemma patch_status_table:
  assumes st: "status_of s = Some st" and ex: "i \<in> id_datban ` set (dat_ban w)"
    and c0: "call_works 0 w" and c1: "call_works 1 w"
  shows "dat_ban (snd (patch_status (Some i) (Some (JStr s)) w)) =
           map (\<lambda>old. if id_datban old = i then old\<lparr>row_trang_thai := st\<rparr> else old) (dat_ban w)"
    and "call_works 2 w \<Longrightarrow> code (fst (patch_status (Some i) (Some (JStr s)) w)) = 200"
proof -
  define w1 where "w1 = w\<lparr>driver := tl (driver w)\<rparr>"
  define rows' where
    "rows' = map (\<lambda>old. if id_datban old = i then old\<lparr>row_trang_thai := st\<rparr> else old) (dat_ban w)"
  define w2 where "w2 = w1\<lparr>driver := tl (driver w1), dat_ban := rows'\<rparr>"
  obtain r rs where found: "filter (\<lambda>r. id_datban r = i) (dat_ban w) = r # rs"
    using ex by (cases "filter (\<lambda>r. id_datban r = i) (dat_ban w)") (auto simp: filter_empty_conv)
  have sel: "executeQuery (select_by_id i) w = (Succeeded (r # rs), w1)"
    using select_found [OF c0] found by (simp add: w1_def)
  have cw1: "call_works 0 w1"
    using c1 by (simp add: call_works_tl w1_def)
  have upd: "executeQuery (update_status i (JStr s)) w1 = (Succeeded (), w2)"
    unfolding executeQuery_works [OF cw1]
    using st by (simp add: update_status_def status_of_value_def w2_def rows'_def) (simp add: w1_def)
  have ok: "truthy (Some (JStr s))"
    "JStr s \<in> set [JStr (js ''cho_xac_nhan''), JStr (js ''da_xac_nhan''), JStr (js ''da_huy'')]"
    using status_of_Some [OF st] by simp_all
  have step: "patch_status (Some i) (Some (JStr s)) w =
          (case executeQuery (select_by_id i) w2 of
             (Succeeded found, w3) \<Rightarrow>
               (\<lparr> code = 200, success = True, message = StatusUpdated,
                   errors = None, data = first_row found, insert_id = None \<rparr>, w3)
           | (_, w3) \<Rightarrow> (failure 500 StatusUpdateFailed, log_line ErrorUpdatingStatus w3))"
    using ok by (simp add: patch_status_def sel upd)
  have tab: "dat_ban (snd (executeQuery (select_by_id i) w2)) = rows'"
    using executeQuery_select_world [of i w2] by (simp add: w2_def)
  obtain res w3 where w3: "executeQuery (select_by_id i) w2 = (res, w3)"
    by (cases "executeQuery (select_by_id i) w2")
  show "dat_ban (snd (patch_status (Some i) (Some (JStr s)) w)) =
           map (\<lambda>old. if id_datban old = i then old\<lparr>row_trang_thai := st\<rparr> else old) (dat_ban w)"
    using tab w3 by (cases res) (simp_all add: step rows'_def)
  show "code (fst (patch_status (Some i) (Some (JStr s)) w)) = 200" if c2: "call_works 2 w"
  proof -
    have "call_works 0 w2"
      using c2 by (simp add: call_works_def w2_def w1_def drop_Suc numeral_2_eq_2)
    then show ?thesis
      by (simp add: step select_found)
  qed
qed

text \<open>
  Claim C10, as the code has it. A status update that names one of the three statuses, for
  a reservation that exists, writes that status whatever the current one is (the route
  has no rule about transitions): every row of that id has the named status afterwards,
  a cancelled one included, and the other rows are unchanged.
\<close>

theorem patch_status_sets_requested_status:
  assumes "status_of s = Some st" and "i \<in> id_datban ` set (dat_ban w)"
    and "call_works 0 w" and "call_works 1 w"
  shows "dat_ban (snd (patch_status (Some i) (Some (JStr s)) w)) =
           map (\<lambda>old. if id_datban old = i then old\<lparr>row_trang_thai := st\<rparr> else old) (dat_ban w) \<and>
         (call_works 2 w \<longrightarrow> code (fst (patch_status (Some i) (Some (JStr s)) w)) = 200)"
  using patch_status_table [OF assms] by simp

text \<open>
  Confirming the pending reservation of id 1.
\<close>

theorem patch_status_sets_requested_status_witness:
  "status_of (js ''da_xac_nhan'') = Some da_xac_nhan \<and>
   1 \<in> id_datban ` set (dat_ban (example_world [example_row 1 cho_xac_nhan] [])) \<and>
   call_works 0 (example_world [example_row 1 cho_xac_nhan] []) \<and>
   call_works 1 (example_world [example_row 1 cho_xac_nhan] []) \<and>
   call_works 2 (example_world [example_row 1 cho_xac_nhan] []) \<and>
   dat_ban (snd (patch_status (Some 1) (Some (JStr (js ''da_xac_nhan'')))
                   (example_world [example_row 1 cho_xac_nhan] []))) =
     [example_row 1 da_xac_nhan] \<and>
   code (fst (patch_status (Some 1) (Some (JStr (js ''da_xac_nhan'')))
                (example_world [example_row 1 cho_xac_nhan] []))) = 200"
proof -
  have h: "1 \<in> id_datban ` set (dat_ban (example_world [example_row 1 cho_xac_nhan] []))"
    "call_works 0 (example_world [example_row 1 cho_xac_nhan] [])"
    "call_works 1 (example_world [example_row 1 cho_xac_nhan] [])"
    "call_works 2 (example_world [example_row 1 cho_xac_nhan] [])"
    by (simp_all add: example_world_def example_row_def call_works_def)
  show ?thesis
    using patch_status_sets_requested_status
            [OF status_of_names(2) h(1) h(2) h(3)] h
    by (simp add: example_world_def example_row_def)
qed

text \<open>
  The claim as stated fails: a status update turns a cancelled reservation into a pending
  one.
\<close>

theorem cancelled_reservation_reactivated:
  "row_trang_thai (example_row 1 da_huy) = da_huy \<and>
   dat_ban (example_world [example_row 1 da_huy] []) = [example_row 1 da_huy] \<and>
   dat_ban (snd (patch_status (Some 1) (Some (JStr (js ''cho_xac_nhan'')))
                   (example_world [example_row 1 da_huy] []))) =
     [example_row 1 cho_xac_nhan] \<and>
   code (fst (patch_status (Some 1) (Some (JStr (js ''cho_xac_nhan'')))
                (example_world [example_row 1 da_huy] []))) = 200"
proof -
  have h: "1 \<in> id_datban ` set (dat_ban (example_world [example_row 1 da_huy] []))"
    "call_works 0 (example_world [example_row 1 da_huy] [])"
    "call_works 1 (example_world [example_row 1 da_huy] [])"
    "call_works 2 (example_world [example_row 1 da_huy] [])"
    by (simp_all add: example_world_def example_row_def call_works_def)
  show ?thesis
    using patch_status_table [OF status_of_names(1) h(1) h(2) h(3)] h(4)
    by (simp add: example_world_def example_row_def)
qed

section \<open>Results about the invariant of the table\<close>

lemma example_values_row:
  "row_of i
     \<lparr> v_ten_khach = JStr (js ''Nguyen Van A''), v_sdt = JStr (js ''0912345678''),
       v_email = JNull, v_ngay = Some (JStr (js ''2026-11-03'')),
       v_gio = Some (JStr (js ''19:00'')), v_so_luong_khach = JNum (Num 4),
       v_ghi_chu = JNull, v_trang_thai = JStr (js ''cho_xac_nhan'') \<rparr> =
   Some (example_row i cho_xac_nhan)"
  by (simp add: row_of_def example_row_def status_of_value_def)

text \<open>
  The create route checks the phone as it was sent and stores it trimmed: a phone sent
  with a leading space passes the validator and the conflict check beside a stored
  reservation of the same phone, date and time.
\<close>

lemma post_datban_untrimmed_phone_duplicate:
  "fst (post_datban example_env (example_request\<lparr>sdt := Some (JStr (32 # js ''0912345678''))\<rparr>)
          (example_world [example_row 1 cho_xac_nhan] [])) =
     \<lparr> code = 201, success = True, message = Created, errors = None,
       data = Some (example_row 2 cho_xac_nhan), insert_id = Some 2 \<rparr> \<and>
   dat_ban (snd (post_datban example_env
                   (example_request\<lparr>sdt := Some (JStr (32 # js ''0912345678''))\<rparr>)
                   (example_world [example_row 1 cho_xac_nhan] []))) =
     [example_row 1 cho_xac_nhan, example_row 2 cho_xac_nhan]"
proof -
  let ?d = "example_request\<lparr>sdt := Some (JStr (32 # js ''0912345678''))\<rparr>"
  let ?w = "example_world [example_row 1 cho_xac_nhan] []"
  have valid: "validateReservationData example_env ?d = Inr []"
    by (simp add: validator_defs example_defs)
  have nodup: "\<not> fst (checkDuplicateReservation (sdt ?d) (ngay ?d) (gio ?d) None ?w)"
    by (simp add: checkDuplicateReservation_def executeQuery_def count_active_def active_match_def
        example_world_def example_row_def example_request_def js_def)
  have bound: "bind_values example_env ?d (JStr (js ''cho_xac_nhan'')) =
     Inr \<lparr> v_ten_khach = JStr (js ''Nguyen Van A''), v_sdt = JStr (js ''0912345678''),
           v_email = JNull, v_ngay = Some (JStr (js ''2026-11-03'')),
           v_gio = Some (JStr (js ''19:00'')), v_so_luong_khach = JNum (Num 4),
           v_ghi_chu = JNull, v_trang_thai = JStr (js ''cho_xac_nhan'') \<rparr>"
    by (simp add: bind_values_def trimmed_def trim_or_null_def validator_defs example_defs)
  have h: "call_works 1 ?w" "call_works 2 ?w" "keys_ok ?w" "auto_increment ?w = 2"
    "dat_ban ?w = [example_row 1 cho_xac_nhan]"
    by (simp_all add: call_works_def keys_ok_def example_world_def example_row_def)
  show ?thesis
    using post_datban_created [OF valid nodup bound h(1,2,3)]
    unfolding h(4) h(5) example_values_row by auto
qed

text \<open>
  Claim C3 says that every write keeps at most one reservation that is not cancelled for
  each phone, date and time. The partial update moves the time of a reservation onto that
  of another one of the same phone and date; the status update makes a cancelled
  reservation pending again beside a pending one of the same phone, date and time; and the
  create route stores a second reservation for a phone sent with a leading space. Each
  request is answered with success, and each table had the property before.
\<close>

theorem writes_that_break_one_active_per_slot:
  "one_active_per_slot
     [example_row 1 cho_xac_nhan, (example_row 2 cho_xac_nhan)\<lparr>row_gio := JStr (js ''20:00'')\<rparr>] \<and>
   \<not> one_active_per_slot
       (dat_ban (snd (patch_datban (Some 2)
                        \<lparr> ten_khach = None, sdt = None, email = None, ngay = None,
                          gio = Some (JStr (js ''19:00'')), so_luong_khach = None,
                          ghi_chu = None, trang_thai = None \<rparr>
                        (example_world
                           [example_row 1 cho_xac_nhan,
                            (example_row 2 cho_xac_nhan)\<lparr>row_gio := JStr (js ''20:00'')\<rparr>] [])))) \<and>
   code (fst (patch_datban (Some 2)
                \<lparr> ten_khach = None, sdt = None, email = None, ngay = None,
                  gio = Some (JStr (js ''19:00'')), so_luong_khach = None,
                  ghi_chu = None, trang_thai = None \<rparr>
                (example_world
                   [example_row 1 cho_xac_nhan,
                    (example_row 2 cho_xac_nhan)\<lparr>row_gio := JStr (js ''20:00'')\<rparr>] []))) = 200 \<and>
   one_active_per_slot [example_row 1 da_huy, example_row 2 cho_xac_nhan] \<and>
   \<not> one_active_per_slot
       (dat_ban (snd (patch_status (Some 1) (Some (JStr (js ''cho_xac_nhan'')))
                        (example_world [example_row 1 da_huy, example_row 2 cho_xac_nhan] [])))) \<and>
   code (fst (patch_status (Some 1) (Some (JStr (js ''cho_xac_nhan'')))
                (example_world [example_row 1 da_huy, example_row 2 cho_xac_nhan] []))) = 200 \<and>
   one_active_per_slot [example_row 1 cho_xac_nhan] \<and>
   \<not> one_active_per_slot
       (dat_ban (snd (post_datban example_env
                        (example_request\<lparr>sdt := Some (JStr (32 # js ''0912345678''))\<rparr>)
                        (example_world [example_row 1 cho_xac_nhan] [])))) \<and>
   code (fst (post_datban example_env
                (example_request\<lparr>sdt := Some (JStr (32 # js ''0912345678''))\<rparr>)
                (example_world [example_row 1 cho_xac_nhan] []))) = 201"
proof -
  have a: "one_active_per_slot [example_row 1 da_huy, example_row 2 cho_xac_nhan]"
    "one_active_per_slot
       [example_row 1 cho_xac_nhan, (example_row 2 cho_xac_nhan)\<lparr>row_gio := JStr (js ''20:00'')\<rparr>]"
    "one_active_per_slot [example_row 1 cho_xac_nhan]"
    by (simp_all add: one_active_per_slot_def active_def slot_def example_row_def js_def)
  have b: "patch_status (Some 1) (Some (JStr (js ''cho_xac_nhan'')))
             (example_world [example_row 1 da_huy, example_row 2 cho_xac_nhan] []) =
           (\<lparr> code = 200, success = True, message = StatusUpdated, errors = None,
               data = Some (example_row 1 cho_xac_nhan), insert_id = None \<rparr>,
            example_world [example_row 1 cho_xac_nhan, example_row 2 cho_xac_nhan] [])"
    by (simp add: patch_status_def executeQuery_def select_by_id_def update_status_def
        status_of_value_def first_row_def example_world_def example_row_def truthy_def Let_def)
  have c: "patch_datban (Some 2)
             \<lparr> ten_khach = None, sdt = None, email = None, ngay = None,
               gio = Some (JStr (js ''19:00'')), so_luong_khach = None, ghi_chu = None,
               trang_thai = None \<rparr>
             (example_world
                [example_row 1 cho_xac_nhan,
                 (example_row 2 cho_xac_nhan)\<lparr>row_gio := JStr (js ''20:00'')\<rparr>] []) =
           (\<lparr> code = 200, success = True, message = Updated, errors = None,
               data = Some (example_row 2 cho_xac_nhan), insert_id = None \<rparr>,
            example_world [example_row 1 cho_xac_nhan, example_row 2 cho_xac_nhan] [])"
    by (simp add: patch_datban_def executeQuery_def select_by_id_def update_fields_def
        apply_updates_def set_opt_def no_fields_def first_row_def example_world_def
        example_row_def Let_def)
  have d: "\<not> one_active_per_slot [example_row 1 cho_xac_nhan, example_row 2 cho_xac_nhan]"
    by (simp add: one_active_per_slot_def active_def slot_def example_row_def)
  have e: "dat_ban (example_world [example_row 1 cho_xac_nhan, example_row 2 cho_xac_nhan] []) =
           [example_row 1 cho_xac_nhan, example_row 2 cho_xac_nhan]"
    by (simp add: example_world_def)
  show ?thesis
    using a d post_datban_untrimmed_phone_duplicate by (simp add: b c e)
qed

text \<open>
  The partial update alone: after it, two pending reservations have the same phone, date
  and time.
\<close>

theorem writes_that_break_one_active_per_slot_witness:
  "\<not> one_active_per_slot
       (dat_ban (snd (patch_datban (Some 2)
                        \<lparr> ten_khach = None, sdt = None, email = None, ngay = None,
                          gio = Some (JStr (js ''19:00'')), so_luong_khach = None,
                          ghi_chu = None, trang_thai = None \<rparr>
                        (example_world
                           [example_row 1 cho_xac_nhan,
                            (example_row 2 cho_xac_nhan)\<lparr>row_gio := JStr (js ''20:00'')\<rparr>] []))))"
  using writes_that_break_one_active_per_slot by blast

text \<open>
  A body whose only field is a \<open>null\<close> note is a change: the partial update writes
  \<open>NULL\<close> and answers 200.
\<close>

lemma patch_datban_null_note:
  "patch_datban (Some 1)
     \<lparr> ten_khach = None, sdt = None, email = None, ngay = None, gio = None,
       so_luong_khach = None, ghi_chu = Some JNull, trang_thai = None \<rparr>
     (example_world [(example_row 1 cho_xac_nhan)\<lparr>row_ghi_chu := JStr (js ''window seat'')\<rparr>] []) =
   (\<lparr> code = 200, success = True, message = Updated, errors = None,
       data = Some (example_row 1 cho_xac_nhan), insert_id = None \<rparr>,
    example_world [example_row 1 cho_xac_nhan] [])"
  by (simp add: patch_datban_def executeQuery_def select_by_id_def update_fields_def
      apply_updates_def set_opt_def no_fields_def first_row_def example_world_def
      example_row_def Let_def)

text \<open>
  When the conflict detector's query fails, the create route stores a second reservation
  for a phone, date and time that already has a pending one: the detector fails open.
\<close>

lemma post_datban_fail_open_duplicate:
  "dat_ban (snd (post_datban example_env example_request
                   (example_world [example_row 1 cho_xac_nhan] [Rejects]))) =
     [example_row 1 cho_xac_nhan, example_row 2 cho_xac_nhan]"
proof -
  let ?w = "example_world [example_row 1 cho_xac_nhan] [Rejects]"
  have nodup: "\<not> fst (checkDuplicateReservation (sdt example_request)
                 (ngay example_request) (gio example_request) None ?w)"
    by (simp add: checkDuplicateReservation_def executeQuery_def example_world_def)
  have h: "call_works 1 ?w" "call_works 2 ?w" "keys_ok ?w" "auto_increment ?w = 2"
    "dat_ban ?w = [example_row 1 cho_xac_nhan]"
    by (simp_all add: call_works_def keys_ok_def example_world_def example_row_def)
  show ?thesis
    using post_datban_created [OF example_request_valid nodup example_bound h(1,2,3)]
    unfolding h(4) h(5) example_values_row by auto
qed

section \<open>Results about list requests and the search pattern\<close>

lemma parseInt_101: "parseInt (Some (js ''101'')) = Num 101"
  by (simp add: parseInt_def js_def isWhiteSpace_def digit_value_def Let_def)

text \<open>
  Claim C7 says that every list request clamps the client's limit to 100. The reservation
  list does not: with \<open>limit=101\<close> its window has the limit 101, where the food list
  gives 100 for the same query value.
\<close>

theorem get_datban_limit_not_clamped:
  "page_limit (get_datban_window None (Some (js ''101''))) = Num 101 \<and>
   getAllFoods_limit (Some (js ''101'')) = Num 100"
  by (simp add: get_datban_window_def getAllFoods_limit_def parseInt_101 js_or_def Math_min_def
      Let_def)

text \<open>
  Claim C8 says that wild cards and the backslash of a search string are neutralised, so
  that the pattern matches the input as a literal substring only. For the input of a
  backslash followed by \<open>%\<close> the builder's pattern is \<open>%\\%%\<close>: it matches \<open>a\b\<close>,
  which does not contain the input. For \<open>50%\<close> the builder's pattern does escape the
  \<open>%\<close>, while the pattern the food list builds itself does not.
\<close>

theorem sanitizeSearchQuery_keeps_backslash:
  "sanitizeSearchQuery (Str [92, 37]) = [92, 92, 37] \<and>
   params (buildWhereClause [(''search'', Str [92, 37])]) =
     [Str [37, 92, 92, 37, 37], Str [37, 92, 92, 37, 37], Str [37, 92, 92, 37, 37]] \<and>
   js_like (js ''a'' @ [92] @ js ''b'') [37, 92, 92, 37, 37] \<and>
   \<not> contains (js ''a'' @ [92] @ js ''b'') [92, 37] \<and>
   searchTerm (Str (js ''50%'')) = js ''%50'' @ [92] @ js ''%%'' \<and>
   \<not> js_like (js ''500'') (searchTerm (Str (js ''50%''))) \<and>
   js_like (js ''500'') (getAll_searchTerm (js ''50%''))"
  by (simp add: sanitizeSearchQuery_def buildWhereClause_def where_entry_def searchTerm_def
      getAll_searchTerm_def substring0_def trim_def isWhiteSpace_def js_like_def js_def Let_def)

end
